theory Spec2Isabelle
  imports Main
begin

section \<open>Thrown errors\<close>

text \<open>
  A thrown error is a value with the name of its class and its message; an awaited call
  that rejects is \<open>Inl\<close> of it. The decoration that the automation host adds to the
  message of an error raised inside the page is not modelled.
\<close>

datatype js_error = JsError (error_name: string) (error_message: string)

abbreviation Error :: "string \<Rightarrow> js_error" where
  "Error m \<equiv> JsError ''Error'' m"

abbreviation TypeError :: "string \<Rightarrow> js_error" where
  "TypeError m \<equiv> JsError ''TypeError'' m"

text \<open>\<open>Error.prototype.toString\<close>, which a template literal applies to an error.\<close>

definition error_to_string :: "js_error \<Rightarrow> string" where
  "error_to_string e =
     (if error_name e = [] then error_message e
      else if error_message e = [] then error_name e
      else error_name e @ '': '' @ error_message e)"

text \<open>
  The first error of a sequence of results, as a loop that stops at the first throw
  gives it; the values when none throws.
\<close>

fun first_error :: "(js_error + 'a) list \<Rightarrow> js_error + 'a list" where
  "first_error [] = Inr []"
| "first_error (Inl e # rs) = Inl e"
| "first_error (Inr x # rs) =
     (case first_error rs of Inl e \<Rightarrow> Inl e | Inr xs \<Rightarrow> Inr (x # xs))"

section \<open>JavaScript values and their JSON serialisation\<close>

subsection \<open>Numbers\<close>

definition digit_char :: "nat \<Rightarrow> char" where
  "digit_char d = ''0123456789'' ! d"

function show_nat :: "nat \<Rightarrow> string" where
  "show_nat n = (if n < 10 then [digit_char n] else show_nat (n div 10) @ [digit_char (n mod 10)])"
  by pat_completeness auto
termination
  by (relation "measure (\<lambda>n. n)") auto

text \<open>
  The decimal text of an integer, as a template literal prints a count or the clock
  (both are whole numbers of magnitude below \<open>10^21\<close>).
\<close>

definition show_int :: "int \<Rightarrow> string" where
  "show_int i = (if i < 0 then CHR ''-'' # show_nat (nat (- i)) else show_nat (nat i))"

text \<open>
  A number value. \<open>Finite neg s n\<close> is the number of magnitude \<open>s \<times> 10^(n - k)\<close>, where \<open>k\<close>
  is the number of decimal digits of \<open>s\<close>, negative when \<open>neg\<close>: the digits \<open>s\<close> (positive,
  not ending in \<open>0\<close>) and the exponent \<open>n\<close> are the ones by which \<open>Number::toString\<close>
  describes a finite non-zero number, so every double is one of these and its text is
  computed from them exactly as the standard says.
\<close>

datatype jsnumber =
    NaN
  | PosInfinity
  | NegInfinity
  | PosZero
  | NegZero
  | Finite bool nat int

definition finite_text :: "string \<Rightarrow> int \<Rightarrow> string" where
  "finite_text ds n =
     (let k = int (length ds) in
      if k \<le> n \<and> n \<le> 21 then ds @ replicate (nat (n - k)) CHR ''0''
      else if 0 < n \<and> n \<le> 21 then take (nat n) ds @ ''.'' @ drop (nat n) ds
      else if - 6 < n \<and> n \<le> 0 then ''0.'' @ replicate (nat (- n)) CHR ''0'' @ ds
      else (if k = 1 then ds else take 1 ds @ ''.'' @ drop 1 ds)
           @ ''e'' @ (if n - 1 < 0 then ''-'' else ''+'') @ show_nat (nat \<bar>n - 1\<bar>))"

fun Number_toString :: "jsnumber \<Rightarrow> string" where
  "Number_toString NaN = ''NaN''"
| "Number_toString PosInfinity = ''Infinity''"
| "Number_toString NegInfinity = ''-Infinity''"
| "Number_toString PosZero = ''0''"
| "Number_toString NegZero = ''0''"
| "Number_toString (Finite neg s n) =
     (if neg then ''-'' else []) @ finite_text (show_nat s) n"

text \<open>A number inside JSON: a finite one by its text, any other as \<open>null\<close>.\<close>

fun JSON_number :: "jsnumber \<Rightarrow> string" where
  "JSON_number NaN = ''null''"
| "JSON_number PosInfinity = ''null''"
| "JSON_number NegInfinity = ''null''"
| "JSON_number x = Number_toString x"

subsection \<open>Strings\<close>

definition hex_char :: "nat \<Rightarrow> char" where
  "hex_char d = ''0123456789abcdef'' ! d"

text \<open>
  \<open>QuoteJSONString\<close> of ECMAScript on strings of 8-bit code units: the two-character
  escapes, \<open>\u00XX\<close> for the other control characters, every other code unit as it is.
\<close>

definition json_escape :: "char \<Rightarrow> string" where
  "json_escape c =
     (if c = CHR 0x08 then [CHR 0x5C, CHR ''b'']
      else if c = CHR 0x09 then [CHR 0x5C, CHR ''t'']
      else if c = CHR 0x0A then [CHR 0x5C, CHR ''n'']
      else if c = CHR 0x0C then [CHR 0x5C, CHR ''f'']
      else if c = CHR 0x0D then [CHR 0x5C, CHR ''r'']
      else if c = CHR 0x22 then [CHR 0x5C, CHR 0x22]
      else if c = CHR 0x5C then [CHR 0x5C, CHR 0x5C]
      else if (of_char c :: nat) < 32
        then [CHR 0x5C, CHR ''u'', CHR ''0'', CHR ''0'',
              hex_char ((of_char c :: nat) div 16), hex_char ((of_char c :: nat) mod 16)]
      else [c])"

definition json_quote :: "string \<Rightarrow> string" where
  "json_quote s = CHR 0x22 # concat (map json_escape s) @ [CHR 0x22]"

text \<open>\<open>Array.prototype.join\<close> on strings.\<close>

fun join :: "string \<Rightarrow> string list \<Rightarrow> string" where
  "join sep [] = []"
| "join sep [x] = x"
| "join sep (x # y # ys) = x @ sep @ join sep (y # ys)"

subsection \<open>Values\<close>

text \<open>
  The values that the page hands to the test and that a test passes as the wanted value:
  \<open>undefined\<close>, \<open>null\<close>, booleans, numbers, \<open>BigInt\<close>s, strings (lists of 8-bit code
  units), arrays, and plain objects, given by their own enumerable string-keyed
  properties in the order of their creation (each key once). \<open>JCyclic\<close> stands for an
  object or array that contains itself. Functions, symbols, dates and other objects with
  a \<open>toJSON\<close> method, sparse arrays and strings with code units above 255 are not
  modelled.
\<close>

datatype jsvalue =
    JUndefined
  | JNull
  | JBool bool
  | JNum jsnumber
  | JBigInt int
  | JStr string
  | JArr "jsvalue list"
  | JObj "(string \<times> jsvalue) list"
  | JCyclic

text \<open>
  A property key is an array index when it is the canonical decimal text of an integer
  from \<open>0\<close> to \<open>2^32 - 2\<close>.
\<close>

definition digit_value :: "char \<Rightarrow> nat option" where
  "digit_value c =
     map_of [(CHR ''0'', 0), (CHR ''1'', 1), (CHR ''2'', 2), (CHR ''3'', 3), (CHR ''4'', 4),
             (CHR ''5'', 5), (CHR ''6'', 6), (CHR ''7'', 7), (CHR ''8'', 8), (CHR ''9'', 9)] c"

fun parse_digits :: "string \<Rightarrow> nat \<Rightarrow> nat option" where
  "parse_digits [] acc = Some acc"
| "parse_digits (c # cs) acc =
     (case digit_value c of None \<Rightarrow> None | Some d \<Rightarrow> parse_digits cs (10 * acc + d))"

definition array_index :: "string \<Rightarrow> nat option" where
  "array_index k =
     (if k = [] then None
      else (case parse_digits k 0 of
              None \<Rightarrow> None
            | Some n \<Rightarrow> if show_nat n = k \<and> n < 4294967295 then Some n else None))"

text \<open>
  The order in which the own properties of an object are enumerated: the array-index
  keys first, ascending by value, then the other keys in the order of their creation.
\<close>

definition own_property_order :: "(string \<times> 'a) list \<Rightarrow> (string \<times> 'a) list" where
  "own_property_order kvs =
     sort_key (\<lambda>kv. case array_index (fst kv) of None \<Rightarrow> 0 | Some n \<Rightarrow> n)
       (filter (\<lambda>kv. array_index (fst kv) \<noteq> None) kvs)
     @ filter (\<lambda>kv. array_index (fst kv) = None) kvs"

text \<open>One property with the result of serialising its value.\<close>

definition keyed :: "string \<times> (js_error + 'a) \<Rightarrow> js_error + (string \<times> 'a)" where
  "keyed kr = (case snd kr of Inl e \<Rightarrow> Inl e | Inr p \<Rightarrow> Inr (fst kr, p))"

text \<open>
  \<open>JSON.stringify\<close> with one argument (\<open>SerializeJSONProperty\<close>): \<open>Inl\<close> is the
  \<open>TypeError\<close> it throws on a \<open>BigInt\<close> and on a cyclic structure; \<open>Inr None\<close> is the
  result \<open>undefined\<close>. The elements of an array and the properties of an object are
  serialised in their order of enumeration, up to the first that throws. Inside an array
  an \<open>undefined\<close> element is written \<open>null\<close>; inside an object a property whose value is
  \<open>undefined\<close> is left out. The wording of the two messages is the engine's.
\<close>

fun JSON_stringify :: "jsvalue \<Rightarrow> js_error + string option" where
  "JSON_stringify JUndefined = Inr None"
| "JSON_stringify JNull = Inr (Some ''null'')"
| "JSON_stringify (JBool b) = Inr (Some (if b then ''true'' else ''false''))"
| "JSON_stringify (JNum x) = Inr (Some (JSON_number x))"
| "JSON_stringify (JBigInt i) = Inl (TypeError ''Do not know how to serialize a BigInt'')"
| "JSON_stringify (JStr s) = Inr (Some (json_quote s))"
| "JSON_stringify (JArr xs) =
     (case first_error (map JSON_stringify xs) of
        Inl e \<Rightarrow> Inl e
      | Inr parts \<Rightarrow>
          Inr (Some (''['' @ join '',''
             (map (\<lambda>p. case p of None \<Rightarrow> ''null'' | Some s \<Rightarrow> s) parts) @ '']'')))"
| "JSON_stringify (JObj kvs) =
     (case first_error (map keyed (own_property_order
              (map (\<lambda>kv. (fst kv, JSON_stringify (snd kv))) kvs))) of
        Inl e \<Rightarrow> Inl e
      | Inr parts \<Rightarrow>
          Inr (Some (''{'' @ join '',''
             (concat (map (\<lambda>kp. case snd kp of
                                   None \<Rightarrow> []
                                 | Some s \<Rightarrow> [json_quote (fst kp) @ '':'' @ s]) parts)) @ ''}'')))"
| "JSON_stringify JCyclic = Inl (TypeError ''Converting circular structure to JSON'')"

text \<open>
  The comparison both poll loops use, \<open>JSON.stringify(a) === JSON.stringify(b)\<close>: the
  left operand is serialised first, and a throw of either serialisation is the throw of
  the comparison.
\<close>

definition Equality :: "jsvalue \<Rightarrow> jsvalue \<Rightarrow> js_error + bool" where
  "Equality a b =
     (case JSON_stringify a of
        Inl e \<Rightarrow> Inl e
      | Inr x \<Rightarrow> (case JSON_stringify b of Inl e \<Rightarrow> Inl e | Inr y \<Rightarrow> Inr (x = y)))"

text \<open>A template literal prints an \<open>undefined\<close> operand as the word itself.\<close>

definition template_str :: "string option \<Rightarrow> string" where
  "template_str s = (case s of None \<Rightarrow> ''undefined'' | Some t \<Rightarrow> t)"

section \<open>The page as the test observes it\<close>

text \<open>
  A scope: \<open>dollar_eval\<close> is \<open>scope.$eval\<close> when that is a function (it returns a value
  or throws), \<open>None\<close> otherwise; \<open>members\<close> are the properties reachable by name.
\<close>

record scope =
  dollar_eval :: "(string \<Rightarrow> js_error + jsvalue) option"
  members :: "(string \<times> jsvalue) list"

text \<open>
  One element at one instant: its \<open>id\<close> (empty when it has none), its \<open>ng-model\<close>
  attribute, what \<open>angular.element(el).scope()\<close> gives, and the error with which the
  host's \<open>evaluate\<close> on its handle rejects, if it does (within one tick either every
  \<open>evaluate\<close> on a handle rejects or none does).
\<close>

record element =
  el_id :: string
  ng_model :: "string option"
  el_scope :: "scope option"
  evaluate_error :: "js_error option"

text \<open>
  What one locator sees at one instant: the elements it matches, in document order,
  whether \<open>window.angular\<close> is there, and the error with which a query through the
  locator rejects, if it does.
\<close>

record snapshot =
  query_error :: "js_error option"
  angular :: bool
  matched :: "element list"

datatype locator = Page | Locator locator string

text \<open>
  The page changes on its own while the test polls. The world gives, for every instant of
  the clock (milliseconds, as \<open>Date.now()\<close>) and every locator, the snapshot a query made
  at that instant sees. All theorems hold for every world, so whatever the marker
  attributes written by the resolver do to later snapshots is covered. The clock is
  idealised: an awaited call into the page takes no time, and
  \<open>setTimeout(r, pollInterval)\<close> resumes exactly \<open>pollInterval\<close> later. The two reads of
  the clock with which a poll loop begins (the one that computes the deadline and the
  one of the first loop test) are two instants, since the clock may advance between them.
\<close>

type_synonym world = "int \<Rightarrow> locator \<Rightarrow> snapshot"

definition elementHandles :: "snapshot \<Rightarrow> js_error + element list" where
  "elementHandles snap =
     (case query_error snap of Some e \<Rightarrow> Inl e | None \<Rightarrow> Inr (matched snap))"

definition locator_count :: "snapshot \<Rightarrow> js_error + nat" where
  "locator_count snap =
     (case query_error snap of Some e \<Rightarrow> Inl e | None \<Rightarrow> Inr (length (matched snap)))"

definition handle_evaluate :: "element \<Rightarrow> (element \<Rightarrow> js_error + 'a) \<Rightarrow> js_error + 'a" where
  "handle_evaluate h fn =
     (case evaluate_error h of Some e \<Rightarrow> Inl e | None \<Rightarrow> fn h)"

text \<open>
  \<open>locator.first().evaluate(fn)\<close>. With no element to run on, the host's call fails
  (after its own wait, which the idealised clock does not count); the wording of that
  error is the host's, the one below stands for it.
\<close>

definition first_evaluate :: "snapshot \<Rightarrow> (element \<Rightarrow> js_error + 'a) \<Rightarrow> js_error + 'a" where
  "first_evaluate snap fn =
     (case query_error snap of
        Some e \<Rightarrow> Inl e
      | None \<Rightarrow>
          (case matched snap of
             [] \<Rightarrow> Inl (Error ''locator.first().evaluate: no element'')
           | h # _ \<Rightarrow> handle_evaluate h fn))"

section \<open>Reading the model value of an element\<close>

text \<open>
  The function that \<open>getNgModelValue\<close> sends into the page. It throws on a missing (or
  empty) attribute, when AngularJS is not loaded, when the element has no scope or the
  scope's \<open>$eval\<close> is not a function, and when \<open>$eval\<close> throws.
\<close>

definition ngModelValue_in_page :: "bool \<Rightarrow> element \<Rightarrow> js_error + jsvalue" where
  "ngModelValue_in_page ang el =
     (case ng_model el of
        None \<Rightarrow> Inl (Error ''Element does not have ng-model attribute'')
      | Some ngModel \<Rightarrow>
          if ngModel = [] then Inl (Error ''Element does not have ng-model attribute'')
          else if \<not> ang then Inl (Error ''AngularJS is not loaded on the page'')
          else (case el_scope el of
                  None \<Rightarrow> Inl (Error ''Could not find AngularJS scope for element'')
                | Some sc \<Rightarrow>
                    (case dollar_eval sc of
                       None \<Rightarrow> Inl (Error ''Could not find AngularJS scope for element'')
                     | Some ev \<Rightarrow>
                         (case ev ngModel of
                            Inr v \<Rightarrow> Inr v
                          | Inl err \<Rightarrow>
                              Inl (Error (''Failed to evaluate ng-model '' @ [CHR 0x22] @ ngModel
                                   @ [CHR 0x22] @ '' via $eval: '' @ error_to_string err))))))"

definition getNgModelValue :: "snapshot \<Rightarrow> js_error + jsvalue" where
  "getNgModelValue snap = first_evaluate snap (ngModelValue_in_page (angular snap))"

text \<open>
  The function that the resolver sends into the page for each handle: the same checks,
  but every failure gives \<open>undefined\<close> instead of throwing.
\<close>

definition candidate_in_page :: "bool \<Rightarrow> element \<Rightarrow> jsvalue" where
  "candidate_in_page ang el =
     (case ng_model el of
        None \<Rightarrow> JUndefined
      | Some ngModelAttr \<Rightarrow>
          if ngModelAttr = [] then JUndefined
          else if \<not> ang then JUndefined
          else (case el_scope el of
                  None \<Rightarrow> JUndefined
                | Some sc \<Rightarrow>
                    (case dollar_eval sc of
                       None \<Rightarrow> JUndefined
                     | Some ev \<Rightarrow> (case ev ngModelAttr of Inr v \<Rightarrow> v | Inl err \<Rightarrow> JUndefined))))"

text \<open>
  The function that gives a matching element its selector: its \<open>id\<close> when it has one,
  otherwise a marker attribute made of the index and the clock (the page reads the same
  clock as the test), which it also writes on the element.
\<close>

definition uniqueId_in_page :: "int \<Rightarrow> nat \<Rightarrow> element \<Rightarrow> string" where
  "uniqueId_in_page now index el =
     (if el_id el \<noteq> [] then ''#'' @ el_id el
      else ''[data-pw-ng-temp='' @ [CHR 0x22]
           @ ''pw-ng-temp-'' @ show_nat index @ ''-'' @ show_int now
           @ [CHR 0x22] @ '']'')"

section \<open>The value-filtered resolver\<close>

definition ng_model_selector :: "string \<Rightarrow> string" where
  "ng_model_selector ngModel = ''[ng-model='' @ [CHR 0x22] @ ngModel @ [CHR 0x22] @ '']''"

definition no_match_selector :: string where
  "no_match_selector = ''[data-pw-ng-no-match='' @ [CHR 0x22] @ ''true'' @ [CHR 0x22] @ '']''"

definition getByNgModel :: "locator \<Rightarrow> string \<Rightarrow> locator" where
  "getByNgModel root ngModel = Locator root (ng_model_selector ngModel)"

text \<open>
  The body of the \<open>try\<close> for one handle: \<open>Inl\<close> when one of the two \<open>evaluate\<close> calls
  rejects or the comparison throws, \<open>Inr None\<close> when the value is not the wanted one,
  \<open>Inr (Some uniqueId)\<close> when it is.
\<close>

definition candidate_try :: "bool \<Rightarrow> jsvalue \<Rightarrow> int \<Rightarrow> element \<Rightarrow> nat \<Rightarrow> js_error + string option" where
  "candidate_try ang val now h i =
     (case handle_evaluate h (\<lambda>el. Inr (candidate_in_page ang el)) of
        Inl e \<Rightarrow> Inl e
      | Inr actualValue \<Rightarrow>
          (case Equality actualValue val of
             Inl e \<Rightarrow> Inl e
           | Inr isMatch \<Rightarrow>
               if isMatch then
                 (case handle_evaluate h (\<lambda>el. Inr (uniqueId_in_page now i el)) of
                    Inl e \<Rightarrow> Inl e
                  | Inr uniqueId \<Rightarrow> Inr (Some uniqueId))
               else Inr None))"

text \<open>The \<open>for\<close> loop over the handles; the \<open>catch\<close> ignores the handle.\<close>

function scan_handles :: "bool \<Rightarrow> jsvalue \<Rightarrow> int \<Rightarrow> element list \<Rightarrow> nat \<Rightarrow> string list \<Rightarrow> string list" where
  "scan_handles ang val now handles i matchingSelectors =
     (if i < length handles then
        scan_handles ang val now handles (Suc i)
          (case candidate_try ang val now (handles ! i) i of
             Inl e \<Rightarrow> matchingSelectors
           | Inr None \<Rightarrow> matchingSelectors
           | Inr (Some uniqueId) \<Rightarrow> matchingSelectors @ [uniqueId])
      else matchingSelectors)"
  by pat_completeness auto
termination
  by (relation "measure (\<lambda>(ang, val, now, handles, i, acc). length handles - i)") auto

text \<open>
  What a call returns, with two observations of the run added: the clock at the return and
  the instants at which a tick (one evaluation attempt) was started.
\<close>

record 'a run =
  result :: "js_error + 'a"
  finished :: int
  ticks :: "int list"

definition resolver_timeout :: int where
  "resolver_timeout = 5000"

definition resolver_pollInterval :: int where
  "resolver_pollInterval = 100"

function getByNgModelValue_loop ::
  "world \<Rightarrow> locator \<Rightarrow> string \<Rightarrow> jsvalue \<Rightarrow> int \<Rightarrow> int \<Rightarrow> int list \<Rightarrow> locator run" where
  "getByNgModelValue_loop w root ngModel val deadline now started =
     (if now \<le> deadline then
        (let snap = w now (Locator root (ng_model_selector ngModel)) in
         case elementHandles snap of
           Inl e \<Rightarrow> \<lparr>result = Inl e, finished = now, ticks = started @ [now]\<rparr>
         | Inr handles \<Rightarrow>
             (let matchingSelectors = scan_handles (angular snap) val now handles 0 [] in
              if length matchingSelectors > 0
              then \<lparr>result = Inr (Locator root (join '', '' matchingSelectors)),
                    finished = now, ticks = started @ [now]\<rparr>
              else getByNgModelValue_loop w root ngModel val deadline
                     (now + resolver_pollInterval) (started @ [now])))
      else \<lparr>result = Inr (Locator root no_match_selector), finished = now, ticks = started\<rparr>)"
  by pat_completeness auto
termination
  by (relation "measure (\<lambda>(w, root, ngModel, val, deadline, now, started). nat (deadline + 1 - now))")
     (auto simp: resolver_pollInterval_def)

text \<open>
  The call: \<open>start\<close> is the clock when the deadline is computed, \<open>first\<close> the clock at
  the first test of the loop.
\<close>

definition getByNgModelValue ::
  "world \<Rightarrow> locator \<Rightarrow> string \<Rightarrow> jsvalue \<Rightarrow> int \<Rightarrow> int \<Rightarrow> locator run" where
  "getByNgModelValue w root ngModel val start first =
     getByNgModelValue_loop w root ngModel val (start + resolver_timeout) first []"

section \<open>The assertion\<close>

text \<open>The \<open>timeout\<close> option is a number, whatever number the caller passes.\<close>

record options =
  timeout :: "jsnumber option"

text \<open>
  An outcome. Its \<open>message\<close> is a function that the test runner calls later; the field
  holds what that call gives, which is a throw when a \<open>JSON.stringify\<close> inside it throws.
\<close>

record outcome =
  pass :: bool
  message :: "js_error + string"
  name :: string
  expected :: jsvalue
  actual :: jsvalue

record matcher_state =
  lastActual :: jsvalue
  lastErrorMessage :: "string option"

datatype tick_end = Returned outcome | Retry matcher_state

text \<open>\<open>options?.timeout ?? 5000\<close>\<close>

definition matcher_timeout :: "options option \<Rightarrow> jsnumber" where
  "matcher_timeout opts =
     (case opts of
        None \<Rightarrow> Finite False 5 4
      | Some os \<Rightarrow> (case timeout os of None \<Rightarrow> Finite False 5 4 | Some t \<Rightarrow> t))"

definition matcher_pollInterval :: int where
  "matcher_pollInterval = 50"

text \<open>
  The deadline \<open>Date.now() + timeout\<close> as the loop test \<open>Date.now() <= deadline\<close> sees it.
  The clock is a whole number of milliseconds, so a finite deadline admits the instants
  up to its integer part; the deadline \<open>Infinity\<close> admits every instant, and \<open>-Infinity\<close>
  and \<open>NaN\<close> admit none. The sum is taken exactly (the rounding of the floating-point
  addition is not modelled).
\<close>

datatype deadline = Until int | Unbounded | Unreachable

definition number_floor :: "bool \<Rightarrow> nat \<Rightarrow> int \<Rightarrow> int" where
  "number_floor neg s n =
     (let k = int (length (show_nat s));
          m = (if neg then - int s else int s)
      in if k \<le> n then m * 10 ^ nat (n - k) else m div 10 ^ nat (k - n))"

fun deadline_of :: "int \<Rightarrow> jsnumber \<Rightarrow> deadline" where
  "deadline_of now NaN = Unreachable"
| "deadline_of now PosInfinity = Unbounded"
| "deadline_of now NegInfinity = Unreachable"
| "deadline_of now PosZero = Until now"
| "deadline_of now NegZero = Until now"
| "deadline_of now (Finite neg s n) = Until (now + number_floor neg s n)"

fun within :: "int \<Rightarrow> deadline \<Rightarrow> bool" where
  "within now (Until d) = (now \<le> d)"
| "within now Unbounded = True"
| "within now Unreachable = False"

definition strict_outcome :: "jsvalue \<Rightarrow> nat \<Rightarrow> outcome" where
  "strict_outcome expected_value count =
     \<lparr>pass = False,
      message = Inr (''Error: strict mode violation: locator resolved to '' @ show_nat count
                @ '' elements, but expected 1''),
      name = ''toHaveNgValue'',
      expected = expected_value,
      actual = JStr (''Found '' @ show_nat count @ '' elements'')\<rparr>"

text \<open>
  The text of a message: the head, the serialised wanted value, a line feed,
  \<open>Received: \<close> and the received text, evaluated from left to right.
\<close>

definition message_text ::
  "string \<Rightarrow> jsvalue \<Rightarrow> (js_error + string option) \<Rightarrow> js_error + string" where
  "message_text head expected_value received =
     (case JSON_stringify expected_value of
        Inl e \<Rightarrow> Inl e
      | Inr es \<Rightarrow>
          (case received of
             Inl e \<Rightarrow> Inl e
           | Inr rs \<Rightarrow>
               Inr (head @ template_str es @ [CHR 0x0A] @ ''Received: '' @ template_str rs)))"

definition pass_outcome :: "jsvalue \<Rightarrow> jsvalue \<Rightarrow> outcome" where
  "pass_outcome expected_value actual_value =
     \<lparr>pass = True,
      message = message_text ''Expected ng-model not to have value: '' expected_value
                  (JSON_stringify actual_value),
      name = ''toHaveNgValue'',
      expected = expected_value,
      actual = actual_value\<rparr>"

text \<open>
  \<open>receivedStr\<close> is computed after the loop, outside every \<open>try\<close>: a throw of its
  \<open>JSON.stringify\<close> is a throw of the assertion itself.
\<close>

definition receivedStr :: "matcher_state \<Rightarrow> js_error + string option" where
  "receivedStr st =
     (if lastActual st = JUndefined
      then Inr (Some (''No value (last error: ''
           @ (case lastErrorMessage st of None \<Rightarrow> ''unknown'' | Some m \<Rightarrow> m) @ '')''))
      else JSON_stringify (lastActual st))"

definition timeout_outcome :: "jsvalue \<Rightarrow> matcher_state \<Rightarrow> js_error + outcome" where
  "timeout_outcome expected_value st =
     (case receivedStr st of
        Inl e \<Rightarrow> Inl e
      | Inr rs \<Rightarrow>
          Inr \<lparr>pass = False,
               message = message_text ''Expected ng-model to have value: '' expected_value (Inr rs),
               name = ''toHaveNgValue'',
               expected = expected_value,
               actual = lastActual st\<rparr>)"

text \<open>
  The body of the \<open>try\<close> of one tick: it throws when the count or the read rejects or
  the comparison throws, returns the strict-mode outcome on a count above one, returns
  the passing outcome on an equal value, and otherwise goes on to the sleep. The value
  read is stored in \<open>lastActual\<close> before the comparison, so a throw carries the state in
  which it leaves the two variables.
\<close>

definition matcher_try ::
  "snapshot \<Rightarrow> jsvalue \<Rightarrow> matcher_state \<Rightarrow> (js_error \<times> matcher_state) + tick_end" where
  "matcher_try snap expected_value st =
     (case locator_count snap of
        Inl err \<Rightarrow> Inl (err, st)
      | Inr count \<Rightarrow>
          if count > 1 then Inr (Returned (strict_outcome expected_value count))
          else (case getNgModelValue snap of
                  Inl err \<Rightarrow> Inl (err, st)
                | Inr actual_value \<Rightarrow>
                    (case Equality actual_value expected_value of
                       Inl err \<Rightarrow> Inl (err, st\<lparr>lastActual := actual_value\<rparr>)
                     | Inr pass_value \<Rightarrow>
                         if pass_value
                         then Inr (Returned (pass_outcome expected_value actual_value))
                         else Inr (Retry (st\<lparr>lastActual := actual_value\<rparr>)))))"

text \<open>The \<open>try\<close> with its \<open>catch\<close>, which keeps the message of the error.\<close>

definition matcher_tick :: "snapshot \<Rightarrow> jsvalue \<Rightarrow> matcher_state \<Rightarrow> tick_end" where
  "matcher_tick snap expected_value st =
     (case matcher_try snap expected_value st of
        Inl (err, st') \<Rightarrow> Retry (st'\<lparr>lastErrorMessage := Some (error_message err)\<rparr>)
      | Inr e \<Rightarrow> e)"

text \<open>
  The poll loop. With the deadline \<open>Infinity\<close> it runs for as long as no tick returns, so
  its value is an option: \<open>None\<close> is a call that never completes.
\<close>

partial_function (option) toHaveNgValue_loop ::
  "world \<Rightarrow> locator \<Rightarrow> jsvalue \<Rightarrow> deadline \<Rightarrow> int \<Rightarrow> matcher_state \<Rightarrow> int list
     \<Rightarrow> outcome run option" where
  "toHaveNgValue_loop w loc expected_value dl now st started =
     (if within now dl then
        (case matcher_tick (w now loc) expected_value st of
           Returned out \<Rightarrow> Some \<lparr>result = Inr out, finished = now, ticks = started @ [now]\<rparr>
         | Retry st' \<Rightarrow>
             toHaveNgValue_loop w loc expected_value dl
               (now + matcher_pollInterval) st' (started @ [now]))
      else Some \<lparr>result = timeout_outcome expected_value st, finished = now, ticks = started\<rparr>)"

text \<open>
  The call: \<open>start\<close> is the clock when the deadline is computed, \<open>first\<close> the clock at
  the first test of the loop.
\<close>

definition toHaveNgValue ::
  "world \<Rightarrow> locator \<Rightarrow> jsvalue \<Rightarrow> options option \<Rightarrow> int \<Rightarrow> int \<Rightarrow> outcome run option" where
  "toHaveNgValue w loc expected_value opts start first =
     toHaveNgValue_loop w loc expected_value (deadline_of start (matcher_timeout opts)) first
       \<lparr>lastActual = JUndefined, lastErrorMessage = None\<rparr> []"

section \<open>Installing the extensions\<close>

text \<open>
  What the installer writes: function objects. Every evaluation of a function expression
  makes a new object, told apart here by a serial number. The page-level ones close over
  their page. A page is named by a number; the locators of all pages have one and the
  same prototype, which is what \<open>Object.getPrototypeOf(page.locator('body'))\<close> gives.
\<close>

datatype method_body =
    PageGetByNgModel nat
  | PageGetByNgModelValue nat
  | LocatorGetByNgModel
  | LocatorGetByNgModelValue
  | Foreign

record function_object =
  serial :: nat
  body :: method_body

record runtime =
  page_methods :: "nat \<Rightarrow> string \<rightharpoonup> function_object"
  locatorPrototype :: "string \<rightharpoonup> function_object"
  next_serial :: nat

definition installAngularjsExtensions :: "nat \<Rightarrow> runtime \<Rightarrow> runtime" where
  "installAngularjsExtensions page rt =
     (let n = next_serial rt;
          rt1 = rt\<lparr>page_methods := (page_methods rt)(page :=
                      ((page_methods rt page)
                         (''getByNgModel'' \<mapsto> \<lparr>serial = n, body = PageGetByNgModel page\<rparr>))
                         (''getByNgModelValue'' \<mapsto> \<lparr>serial = n + 1, body = PageGetByNgModelValue page\<rparr>)),
                    next_serial := n + 2\<rparr>
      in case locatorPrototype rt1 ''getByNgModel'' of
           Some f \<Rightarrow> rt1
         | None \<Rightarrow>
             rt1\<lparr>locatorPrototype :=
                    ((locatorPrototype rt1)
                       (''getByNgModel'' \<mapsto> \<lparr>serial = n + 2, body = LocatorGetByNgModel\<rparr>))
                       (''getByNgModelValue'' \<mapsto> \<lparr>serial = n + 3, body = LocatorGetByNgModelValue\<rparr>),
                  next_serial := n + 4\<rparr>)"

section \<open>Notions used to state the properties\<close>

text \<open>
  A candidate is kept in a tick when its handle can be evaluated and the comparison of
  the value read from it with the wanted one gives \<open>true\<close>. The selectors of the kept
  candidates, in document order, each made from the candidate's position among the
  handles.
\<close>

definition candidate_matches :: "bool \<Rightarrow> jsvalue \<Rightarrow> element \<Rightarrow> bool" where
  "candidate_matches ang val h \<longleftrightarrow>
     evaluate_error h = None \<and> Equality (candidate_in_page ang h) val = Inr True"

fun kept_from :: "bool \<Rightarrow> jsvalue \<Rightarrow> int \<Rightarrow> nat \<Rightarrow> element list \<Rightarrow> string list" where
  "kept_from ang val now i [] = []"
| "kept_from ang val now i (h # hs) =
     (if candidate_matches ang val h then [uniqueId_in_page now i h] else [])
     @ kept_from ang val now (Suc i) hs"

text \<open>
  The four ways in which reading an element inside the page fails, in the order in which
  both page functions test for them; \<open>None\<close> when the read gives a value.
\<close>

datatype eval_failure = NoAttribute | HostFrameworkAbsent | ScopeUnavailable | EvaluationThrew

definition read_failure :: "bool \<Rightarrow> element \<Rightarrow> eval_failure option" where
  "read_failure ang el =
     (case ng_model el of
        None \<Rightarrow> Some NoAttribute
      | Some a \<Rightarrow>
          if a = [] then Some NoAttribute
          else if \<not> ang then Some HostFrameworkAbsent
          else (case el_scope el of
                  None \<Rightarrow> Some ScopeUnavailable
                | Some sc \<Rightarrow>
                    (case dollar_eval sc of
                       None \<Rightarrow> Some ScopeUnavailable
                     | Some ev \<Rightarrow> (case ev a of Inl e \<Rightarrow> Some EvaluationThrew | Inr v \<Rightarrow> None))))"

text \<open>
  The reader as the specification words it, to compare with the two page functions: the
  scope's own evaluator when the scope has one, otherwise the path split at the dots and
  followed through the scope's members, giving \<open>undefined\<close> at the first missing segment.
\<close>

fun split_on :: "char \<Rightarrow> string \<Rightarrow> string list" where
  "split_on d [] = [[]]"
| "split_on d (c # cs) =
     (if c = d then [] # split_on d cs
      else (case split_on d cs of [] \<Rightarrow> [[c]] | p # ps \<Rightarrow> (c # p) # ps))"

fun spec_traverse :: "jsvalue \<Rightarrow> string list \<Rightarrow> jsvalue" where
  "spec_traverse v [] = v"
| "spec_traverse (JObj kvs) (k # ks) =
     (case map_of kvs k of None \<Rightarrow> JUndefined | Some v' \<Rightarrow> spec_traverse v' ks)"
| "spec_traverse v (k # ks) = JUndefined"

definition spec_ScopeValueReader :: "bool \<Rightarrow> element \<Rightarrow> eval_failure + jsvalue" where
  "spec_ScopeValueReader ang el =
     (case ng_model el of
        None \<Rightarrow> Inl NoAttribute
      | Some path \<Rightarrow>
          if \<not> ang then Inl HostFrameworkAbsent
          else (case el_scope el of
                  None \<Rightarrow> Inl ScopeUnavailable
                | Some sc \<Rightarrow>
                    (case dollar_eval sc of
                       Some ev \<Rightarrow> (case ev path of Inl e \<Rightarrow> Inl EvaluationThrew | Inr v \<Rightarrow> Inr v)
                     | None \<Rightarrow> Inr (spec_traverse (JObj (members sc)) (split_on CHR ''.'' path)))))"

text \<open>The JSON-shaped values: no \<open>undefined\<close> anywhere inside.\<close>






text \<open>
  What one tick of the resolver finds: the rejection of the query, or the selectors of the
  candidates it keeps.
\<close>

definition tick_selectors :: "world \<Rightarrow> locator \<Rightarrow> string \<Rightarrow> jsvalue \<Rightarrow> int \<Rightarrow> js_error + string list" where
  "tick_selectors w root ngModel val now =
     (let snap = w now (Locator root (ng_model_selector ngModel)) in
      case elementHandles snap of
        Inl e \<Rightarrow> Inl e
      | Inr handles \<Rightarrow> Inr (kept_from (angular snap) val now 0 handles))"


text \<open>
  Whether the tick on a snapshot returns (on a count above one or on an equal value); it
  does not depend on the two variables.
\<close>

definition tick_returns :: "snapshot \<Rightarrow> jsvalue \<Rightarrow> bool" where
  "tick_returns snap expected_value \<longleftrightarrow>
     (case matcher_tick snap expected_value \<lparr>lastActual = JUndefined, lastErrorMessage = None\<rparr> of
        Returned out \<Rightarrow> True
      | Retry st \<Rightarrow> False)"

section \<open>Example pages\<close>

definition name_input :: element where
  "name_input =
     \<lparr>el_id = ''name'', ng_model = Some ''user.name'',
      el_scope = Some \<lparr>dollar_eval = Some (\<lambda>e. Inr (JStr ''Initial Name'')), members = []\<rparr>,
      evaluate_error = None\<rparr>"

definition two_inputs_world :: world where
  "two_inputs_world =
     (\<lambda>t l. \<lparr>query_error = None, angular = True, matched = [name_input, name_input]\<rparr>)"

definition fresh_runtime :: runtime where
  "fresh_runtime = \<lparr>page_methods = (\<lambda>p. Map.empty), locatorPrototype = Map.empty, next_serial = 0\<rparr>"

definition email_input :: element where
  "email_input =
     \<lparr>el_id = ''email'', ng_model = Some ''user.email'',
      el_scope = Some \<lparr>dollar_eval = Some (\<lambda>e. Inr (JStr ''test@example.com'')), members = []\<rparr>,
      evaluate_error = None\<rparr>"

definition email_copy :: element where
  "email_copy = email_input\<lparr>el_id := ''''\<rparr>"

definition late_email_world :: world where
  "late_email_world =
     (\<lambda>t l. \<lparr>query_error = None, angular = True,
              matched = (if t < 200 then [] else [email_input, email_copy])\<rparr>)"

definition empty_world :: world where
  "empty_world = (\<lambda>t l. \<lparr>query_error = None, angular = True, matched = []\<rparr>)"

definition single_input_world :: world where
  "single_input_world =
     (\<lambda>t l. \<lparr>query_error = None, angular = True, matched = [name_input]\<rparr>)"


definition orphan_input :: element where
  "orphan_input =
     \<lparr>el_id = '''', ng_model = Some ''user.nick'', el_scope = None, evaluate_error = None\<rparr>"

definition nick_input :: element where
  "nick_input =
     \<lparr>el_id = ''nick'', ng_model = Some ''user.nick'',
      el_scope = Some \<lparr>dollar_eval = Some (\<lambda>e. Inr (JStr ''bob'')), members = []\<rparr>,
      evaluate_error = None\<rparr>"

definition orphan_world :: world where
  "orphan_world =
     (\<lambda>t l. \<lparr>query_error = None, angular = True, matched = [orphan_input, nick_input]\<rparr>)"



definition plain_scope_input :: element where
  "plain_scope_input =
     \<lparr>el_id = ''name'', ng_model = Some ''user.name'',
      el_scope = Some \<lparr>dollar_eval = None,
                       members = [(''user'', JObj [(''name'', JStr ''Ann'')])]\<rparr>,
      evaluate_error = None\<rparr>"

definition throwing_input :: element where
  "throwing_input =
     \<lparr>el_id = ''name'', ng_model = Some ''user.'',
      el_scope = Some \<lparr>dollar_eval = Some (\<lambda>e. Inl (Error ''[$parse:ueoe]'')), members = []\<rparr>,
      evaluate_error = None\<rparr>"




definition profile_input :: element where
  "profile_input =
     \<lparr>el_id = ''profile'', ng_model = Some ''user.profile'',
      el_scope = Some \<lparr>dollar_eval = Some (\<lambda>e. Inr (JObj [(''b'', JNum (Finite False 2 1)),
                                                              (''a'', JNum (Finite False 1 1))])),
                       members = []\<rparr>,
      evaluate_error = None\<rparr>"

definition profile_world :: world where
  "profile_world =
     (\<lambda>t l. \<lparr>query_error = None, angular = True, matched = [profile_input]\<rparr>)"

section \<open>Unfolding the loops\<close>

declare toHaveNgValue_loop.simps [simp del]
declare getByNgModelValue_loop.simps [simp del]
declare scan_handles.simps [simp del]
declare show_nat.simps [simp del]

lemma toHaveNgValue_loop_returned:
  "within now dl \<Longrightarrow> matcher_tick (w now loc) ev st = Returned out \<Longrightarrow>
   toHaveNgValue_loop w loc ev dl now st started
     = Some \<lparr>result = Inr out, finished = now, ticks = started @ [now]\<rparr>"
  by (subst toHaveNgValue_loop.simps) simp

lemma toHaveNgValue_loop_retry:
  "within now dl \<Longrightarrow> matcher_tick (w now loc) ev st = Retry st' \<Longrightarrow>
   toHaveNgValue_loop w loc ev dl now st started
     = toHaveNgValue_loop w loc ev dl (now + matcher_pollInterval) st' (started @ [now])"
  by (subst toHaveNgValue_loop.simps) simp

lemma toHaveNgValue_loop_timeout:
  "\<not> within now dl \<Longrightarrow>
   toHaveNgValue_loop w loc ev dl now st started
     = Some \<lparr>result = timeout_outcome ev st, finished = now, ticks = started\<rparr>"
  by (subst toHaveNgValue_loop.simps) simp

section \<open>The resolver's ticks\<close>


lemma candidate_try_kept:
  "(case candidate_try ang val now h i of
      Inl e \<Rightarrow> acc | Inr None \<Rightarrow> acc | Inr (Some u) \<Rightarrow> acc @ [u])
   = acc @ (if candidate_matches ang val h then [uniqueId_in_page now i h] else [])"
  by (simp add: candidate_try_def candidate_matches_def handle_evaluate_def
        split: option.splits sum.splits)

lemma scan_handles_kept:
  "i \<le> length hs \<Longrightarrow>
   scan_handles ang val now hs i acc = acc @ kept_from ang val now i (drop i hs)"
proof (induction ang val now hs i acc rule: scan_handles.induct)
  case (1 ang val now handles i acc)
  show ?case
  proof (cases "i < length handles")
    case True
    then have d: "drop i handles = handles ! i # drop (Suc i) handles"
      by (simp add: Cons_nth_drop_Suc)
    from True have "Suc i \<le> length handles" by simp
    from "1.IH" [OF True this] True d show ?thesis
      by (subst scan_handles.simps) (simp add: candidate_try_kept)
  next
    case False
    with "1.prems" show ?thesis
      by (subst scan_handles.simps) simp
  qed
qed

lemma scan_handles_all: "scan_handles ang val now hs 0 [] = kept_from ang val now 0 hs"
  by (simp add: scan_handles_kept)

lemma kept_from_empty_iff:
  "kept_from ang val now i hs = [] \<longleftrightarrow> (\<forall>h \<in> set hs. \<not> candidate_matches ang val h)"
  by (induction hs arbitrary: i) auto

lemma kept_from_append:
  "kept_from ang val now i (xs @ ys)
     = kept_from ang val now i xs @ kept_from ang val now (i + length xs) ys"
  by (induction xs arbitrary: i) auto

lemma getByNgModelValue_loop_found:
  "now \<le> deadline \<Longrightarrow> tick_selectors w root m v now = Inr sels \<Longrightarrow> sels \<noteq> [] \<Longrightarrow>
   getByNgModelValue_loop w root m v deadline now started
     = \<lparr>result = Inr (Locator root (join '', '' sels)), finished = now, ticks = started @ [now]\<rparr>"
  by (subst getByNgModelValue_loop.simps)
     (auto simp: tick_selectors_def Let_def scan_handles_all split: sum.splits)

lemma getByNgModelValue_loop_none:
  "now \<le> deadline \<Longrightarrow> tick_selectors w root m v now = Inr [] \<Longrightarrow>
   getByNgModelValue_loop w root m v deadline now started
     = getByNgModelValue_loop w root m v deadline (now + resolver_pollInterval) (started @ [now])"
  by (subst getByNgModelValue_loop.simps)
     (auto simp: tick_selectors_def Let_def scan_handles_all split: sum.splits)

lemma getByNgModelValue_loop_rejected:
  "now \<le> deadline \<Longrightarrow> tick_selectors w root m v now = Inl e \<Longrightarrow>
   getByNgModelValue_loop w root m v deadline now started
     = \<lparr>result = Inl e, finished = now, ticks = started @ [now]\<rparr>"
  by (subst getByNgModelValue_loop.simps)
     (auto simp: tick_selectors_def Let_def scan_handles_all split: sum.splits)

lemma getByNgModelValue_loop_timeout:
  "\<not> now \<le> deadline \<Longrightarrow>
   getByNgModelValue_loop w root m v deadline now started
     = \<lparr>result = Inr (Locator root no_match_selector), finished = now, ticks = started\<rparr>"
  by (subst getByNgModelValue_loop.simps) simp

lemma getByNgModelValue_loop_skip:
  "(\<forall>k<n. tick_selectors w root m v (now + resolver_pollInterval * int k) = Inr []) \<Longrightarrow>
   (\<forall>k<n. now + resolver_pollInterval * int k \<le> deadline) \<Longrightarrow>
   getByNgModelValue_loop w root m v deadline now started
     = getByNgModelValue_loop w root m v deadline (now + resolver_pollInterval * int n)
         (started @ map (\<lambda>k. now + resolver_pollInterval * int k) [0..<n])"
proof (induction n arbitrary: now started)
  case 0
  then show ?case by simp
next
  case (Suc n)
  have t0: "tick_selectors w root m v now = Inr []" and d0: "now \<le> deadline"
    using Suc.prems(1) [rule_format, of 0] Suc.prems(2) [rule_format, of 0] by simp_all
  have a: "\<forall>k<n. tick_selectors w root m v (now + resolver_pollInterval + resolver_pollInterval * int k) = Inr []"
  proof (intro allI impI)
    fix k assume "k < n"
    then have "Suc k < Suc n" by simp
    from Suc.prems(1) [rule_format, OF this] show
      "tick_selectors w root m v (now + resolver_pollInterval + resolver_pollInterval * int k) = Inr []"
      by (simp add: algebra_simps)
  qed
  have b: "\<forall>k<n. now + resolver_pollInterval + resolver_pollInterval * int k \<le> deadline"
  proof (intro allI impI)
    fix k assume "k < n"
    then have "Suc k < Suc n" by simp
    from Suc.prems(2) [rule_format, OF this] show
      "now + resolver_pollInterval + resolver_pollInterval * int k \<le> deadline"
      by (simp add: algebra_simps)
  qed
  have m: "map (\<lambda>k. now + resolver_pollInterval * int k) [0..<Suc n]
         = now # map (\<lambda>k. now + resolver_pollInterval + resolver_pollInterval * int k) [0..<n]"
    by (simp add: upt_conv_Cons map_Suc_upt [symmetric] algebra_simps del: upt_Suc)
  show ?case
    using Suc.IH [OF a b, of "started @ [now]"] 
    by (simp only: getByNgModelValue_loop_none [OF d0 t0] m) (simp add: algebra_simps)
qed


section \<open>Induction along the poll loops\<close>


lemma resolver_loop_induct [case_names timeout rejected found none]:
  assumes "\<And>now started. \<not> now \<le> deadline \<Longrightarrow> P now started"
      and "\<And>now started e. now \<le> deadline \<Longrightarrow> tick_selectors w root m v now = Inl e \<Longrightarrow> P now started"
      and "\<And>now started sels. now \<le> deadline \<Longrightarrow> tick_selectors w root m v now = Inr sels \<Longrightarrow>
             sels \<noteq> [] \<Longrightarrow> P now started"
      and "\<And>now started. now \<le> deadline \<Longrightarrow> tick_selectors w root m v now = Inr [] \<Longrightarrow>
             P (now + resolver_pollInterval) (started @ [now]) \<Longrightarrow> P now started"
  shows "P now (started :: int list)"
proof (induction "nat (deadline + 1 - now)" arbitrary: now started rule: less_induct)
  case (less now started)
  show ?case
  proof (cases "now \<le> deadline")
    case False
    then show ?thesis by (rule assms(1))
  next
    case True
    show ?thesis
    proof (cases "tick_selectors w root m v now")
      case (Inl e)
      with True show ?thesis by (rule assms(2))
    next
      case (Inr sels)
      show ?thesis
      proof (cases "sels = []")
        case False
        with True Inr show ?thesis by (rule assms(3))
      next
        case nil: True
        have "nat (deadline + 1 - (now + resolver_pollInterval)) < nat (deadline + 1 - now)"
          using True by (simp add: resolver_pollInterval_def)
        then have "P (now + resolver_pollInterval) (started @ [now])" by (rule less)
        with True Inr nil show ?thesis by (simp add: assms(4))
      qed
    qed
  qed
qed

lemma matcher_loop_induct [case_names timeout returned retry]:
  assumes "\<And>now st started. \<not> now \<le> d \<Longrightarrow> P now st started"
      and "\<And>now st started out. now \<le> d \<Longrightarrow>
             matcher_tick (w now loc) ev st = Returned out \<Longrightarrow> P now st started"
      and "\<And>now st started st'. now \<le> d \<Longrightarrow>
             matcher_tick (w now loc) ev st = Retry st' \<Longrightarrow>
             P (now + matcher_pollInterval) st' (started @ [now]) \<Longrightarrow> P now st started"
  shows "P now st (started :: int list)"
proof (induction "nat (d + 1 - now)" arbitrary: now st started rule: less_induct)
  case (less now st started)
  show ?case
  proof (cases "now \<le> d")
    case False
    then show ?thesis by (rule assms(1))
  next
    case True
    show ?thesis
    proof (cases "matcher_tick (w now loc) ev st")
      case (Returned out)
      with True show ?thesis by (simp add: assms(2))
    next
      case (Retry st')
      have "nat (d + 1 - (now + matcher_pollInterval)) < nat (d + 1 - now)"
        using True by (simp add: matcher_pollInterval_def)
      then have "P (now + matcher_pollInterval) st' (started @ [now])" by (rule less)
      with True Retry show ?thesis by (simp add: assms(3))
    qed
  qed
qed

text \<open>With a finite deadline the loop of the assertion completes.\<close>

lemma toHaveNgValue_loop_completes:
  "\<exists>r. toHaveNgValue_loop w loc ev (Until d) now st started = Some r"
  by (induction now st started rule: matcher_loop_induct [where d = d and w = w and loc = loc and ev = ev])
     (simp_all add: toHaveNgValue_loop_timeout toHaveNgValue_loop_returned toHaveNgValue_loop_retry)

lemma within_earlier: "within t dl \<Longrightarrow> s \<le> t \<Longrightarrow> within s dl"
  by (cases dl) simp_all

text \<open>
  Induction along a run of the assertion's loop that completes, whatever the deadline.
\<close>

lemma matcher_run_induct [consumes 1, case_names timeout returned retry]:
  assumes run: "toHaveNgValue_loop w loc ev dl now st started = Some r"
      and timeout: "\<And>now st started. \<not> within now dl \<Longrightarrow>
             P now st started \<lparr>result = timeout_outcome ev st, finished = now, ticks = started\<rparr>"
      and returned: "\<And>now st started out. within now dl \<Longrightarrow>
             matcher_tick (w now loc) ev st = Returned out \<Longrightarrow>
             P now st started \<lparr>result = Inr out, finished = now, ticks = started @ [now]\<rparr>"
      and retry: "\<And>now st started st' r. within now dl \<Longrightarrow>
             matcher_tick (w now loc) ev st = Retry st' \<Longrightarrow>
             toHaveNgValue_loop w loc ev dl (now + matcher_pollInterval) st' (started @ [now]) = Some r \<Longrightarrow>
             P (now + matcher_pollInterval) st' (started @ [now]) r \<Longrightarrow> P now st started r"
  shows "P now st (started :: int list) r"
proof -
  let ?Q = "\<lambda>w' loc' ev' dl' now st started r.
              w' = w \<and> loc' = loc \<and> ev' = ev \<and> dl' = dl \<longrightarrow>
              toHaveNgValue_loop w loc ev dl now st started = Some r \<and> P now st started r"
  have "?Q w loc ev dl now st started r"
  proof (rule toHaveNgValue_loop.raw_induct [where P = ?Q, OF _ run])
    fix f w' loc' ev' dl' now st started r
    assume IH: "\<And>w' loc' ev' dl' now st started r.
                  f w' loc' ev' dl' now st started = Some r \<Longrightarrow> ?Q w' loc' ev' dl' now st started r"
      and step: "(if within now dl'
                  then case matcher_tick (w' now loc') ev' st of
                         Returned out \<Rightarrow> Some \<lparr>result = Inr out, finished = now, ticks = started @ [now]\<rparr>
                       | Retry st' \<Rightarrow> f w' loc' ev' dl' (now + matcher_pollInterval) st' (started @ [now])
                  else Some \<lparr>result = timeout_outcome ev' st, finished = now, ticks = started\<rparr>) = Some r"
    show "?Q w' loc' ev' dl' now st started r"
    proof (intro impI)
      assume eq: "w' = w \<and> loc' = loc \<and> ev' = ev \<and> dl' = dl"
      show "toHaveNgValue_loop w loc ev dl now st started = Some r \<and> P now st started r"
      proof (cases "within now dl")
        case False
        with step eq have r: "r = \<lparr>result = timeout_outcome ev st, finished = now, ticks = started\<rparr>"
          by auto
        from False show ?thesis
          unfolding r by (simp add: toHaveNgValue_loop_timeout timeout)
      next
        case True
        show ?thesis
        proof (cases "matcher_tick (w now loc) ev st")
          case (Returned out)
          with True step eq have r: "r = \<lparr>result = Inr out, finished = now, ticks = started @ [now]\<rparr>"
            by auto
          from True Returned show ?thesis
            unfolding r by (simp add: toHaveNgValue_loop_returned returned)
        next
          case (Retry st')
          with True step eq have "f w loc ev dl (now + matcher_pollInterval) st' (started @ [now]) = Some r"
            by simp
          from IH [OF this] have
            sub: "toHaveNgValue_loop w loc ev dl (now + matcher_pollInterval) st' (started @ [now]) = Some r"
            and p: "P (now + matcher_pollInterval) st' (started @ [now]) r"
            by simp_all
          from True Retry sub have "toHaveNgValue_loop w loc ev dl now st started = Some r"
            by (simp add: toHaveNgValue_loop_retry)
          moreover from True Retry sub p have "P now st started r" by (rule retry)
          ultimately show ?thesis by simp
        qed
      qed
    qed
  qed
  then show ?thesis by simp
qed

lemma toHaveNgValue_loop_ticks_bound:
  assumes "toHaveNgValue_loop w loc ev dl now st started = Some r"
  shows "t \<in> set (ticks r) \<longrightarrow> t \<in> set started \<or> within t dl"
  using assms by (induction rule: matcher_run_induct) auto

lemma toHaveNgValue_loop_ticks_prefix:
  assumes "toHaveNgValue_loop w loc ev dl now st started = Some r"
  shows "\<exists>rest. ticks r = started @ rest"
  using assms by (induction rule: matcher_run_induct) auto

lemma toHaveNgValue_loop_first_tick:
  assumes "within now dl" and "toHaveNgValue_loop w loc ev dl now st started = Some r"
  shows "\<exists>rest. ticks r = started @ now # rest"
proof (cases "matcher_tick (w now loc) ev st")
  case (Returned out)
  with assms show ?thesis by (auto simp: toHaveNgValue_loop_returned)
next
  case (Retry st')
  with assms have "toHaveNgValue_loop w loc ev dl (now + matcher_pollInterval) st' (started @ [now]) = Some r"
    by (simp add: toHaveNgValue_loop_retry)
  from toHaveNgValue_loop_ticks_prefix [OF this] show ?thesis by auto
qed

lemma getByNgModelValue_loop_ticks_bound:
  "t \<in> set (ticks (getByNgModelValue_loop w root m v deadline now started)) \<Longrightarrow>
   t \<in> set started \<or> t \<le> deadline"
  by (induction now started rule: resolver_loop_induct [where deadline = deadline and w = w and root = root and m = m and v = v])
     (auto simp: getByNgModelValue_loop_timeout getByNgModelValue_loop_rejected
        getByNgModelValue_loop_found getByNgModelValue_loop_none)

lemma getByNgModelValue_loop_ticks_prefix:
  "\<exists>rest. ticks (getByNgModelValue_loop w root m v deadline now started) = started @ rest"
  by (induction now started rule: resolver_loop_induct [where deadline = deadline and w = w and root = root and m = m and v = v])
     (auto simp: getByNgModelValue_loop_timeout getByNgModelValue_loop_rejected
        getByNgModelValue_loop_found getByNgModelValue_loop_none)

lemma getByNgModelValue_loop_first_tick:
  assumes "now \<le> deadline"
  shows "\<exists>rest. ticks (getByNgModelValue_loop w root m v deadline now started) = started @ now # rest"
proof (cases "tick_selectors w root m v now")
  case (Inl e)
  with assms show ?thesis by (simp add: getByNgModelValue_loop_rejected)
next
  case (Inr sels)
  show ?thesis
  proof (cases "sels = []")
    case False
    with assms Inr show ?thesis by (simp add: getByNgModelValue_loop_found)
  next
    case True
    with assms Inr getByNgModelValue_loop_ticks_prefix
           [of w root m v deadline "now + resolver_pollInterval" "started @ [now]"]
    show ?thesis by (auto simp: getByNgModelValue_loop_none)
  qed
qed

lemma tick_selectors_rejects:
  "tick_selectors w root m v t = Inl e \<longleftrightarrow>
   elementHandles (w t (Locator root (ng_model_selector m))) = Inl e"
  by (simp add: tick_selectors_def Let_def split: sum.splits)

lemma getByNgModelValue_loop_rejection:
  "result (getByNgModelValue_loop w root m v deadline now started) = Inl e \<Longrightarrow>
   \<exists>t \<in> set (ticks (getByNgModelValue_loop w root m v deadline now started)).
      elementHandles (w t (Locator root (ng_model_selector m))) = Inl e"
  by (induction now started rule: resolver_loop_induct [where deadline = deadline and w = w and root = root and m = m and v = v])
     (auto simp: getByNgModelValue_loop_timeout getByNgModelValue_loop_rejected
        getByNgModelValue_loop_found getByNgModelValue_loop_none tick_selectors_rejects)


lemma getByNgModelValue_loop_no_match:
  "(\<forall>k. now + resolver_pollInterval * int k \<le> deadline \<longrightarrow>
        tick_selectors w root m v (now + resolver_pollInterval * int k) = Inr []) \<longrightarrow>
   result (getByNgModelValue_loop w root m v deadline now started) = Inr (Locator root no_match_selector)
   \<and> deadline < finished (getByNgModelValue_loop w root m v deadline now started)
   \<and> (now \<le> deadline \<longrightarrow>
        finished (getByNgModelValue_loop w root m v deadline now started) \<le> deadline + resolver_pollInterval)"
proof (induction now started rule: resolver_loop_induct [where deadline = deadline and w = w and root = root and m = m and v = v])
  case (timeout now started)
  then show ?case by (simp add: getByNgModelValue_loop_timeout)
next
  case (rejected now started e)
  show ?case
  proof (intro impI)
    assume "\<forall>k. now + resolver_pollInterval * int k \<le> deadline \<longrightarrow>
              tick_selectors w root m v (now + resolver_pollInterval * int k) = Inr []"
    from this [rule_format, of 0] rejected show
      "result (getByNgModelValue_loop w root m v deadline now started) = Inr (Locator root no_match_selector)
       \<and> deadline < finished (getByNgModelValue_loop w root m v deadline now started)
       \<and> (now \<le> deadline \<longrightarrow>
            finished (getByNgModelValue_loop w root m v deadline now started) \<le> deadline + resolver_pollInterval)"
      by simp
  qed
next
  case (found now started sels)
  show ?case
  proof (intro impI)
    assume "\<forall>k. now + resolver_pollInterval * int k \<le> deadline \<longrightarrow>
              tick_selectors w root m v (now + resolver_pollInterval * int k) = Inr []"
    from this [rule_format, of 0] found show
      "result (getByNgModelValue_loop w root m v deadline now started) = Inr (Locator root no_match_selector)
       \<and> deadline < finished (getByNgModelValue_loop w root m v deadline now started)
       \<and> (now \<le> deadline \<longrightarrow>
            finished (getByNgModelValue_loop w root m v deadline now started) \<le> deadline + resolver_pollInterval)"
      by simp
  qed
next
  case (none now started)
  show ?case
  proof (intro impI)
    assume a: "\<forall>k. now + resolver_pollInterval * int k \<le> deadline \<longrightarrow>
              tick_selectors w root m v (now + resolver_pollInterval * int k) = Inr []"
    have "\<forall>k. now + resolver_pollInterval + resolver_pollInterval * int k \<le> deadline \<longrightarrow>
              tick_selectors w root m v (now + resolver_pollInterval + resolver_pollInterval * int k) = Inr []"
    proof (intro allI impI)
      fix k assume "now + resolver_pollInterval + resolver_pollInterval * int k \<le> deadline"
      with a [rule_format, of "Suc k"] show
        "tick_selectors w root m v (now + resolver_pollInterval + resolver_pollInterval * int k) = Inr []"
        by (simp add: algebra_simps)
    qed
    with none(3) have IH:
      "result (getByNgModelValue_loop w root m v deadline (now + resolver_pollInterval) (started @ [now]))
         = Inr (Locator root no_match_selector)"
      "deadline < finished (getByNgModelValue_loop w root m v deadline (now + resolver_pollInterval) (started @ [now]))"
      "now + resolver_pollInterval \<le> deadline \<longrightarrow>
         finished (getByNgModelValue_loop w root m v deadline (now + resolver_pollInterval) (started @ [now]))
           \<le> deadline + resolver_pollInterval"
      by simp_all
    have late: "\<not> now + resolver_pollInterval \<le> deadline \<longrightarrow>
         finished (getByNgModelValue_loop w root m v deadline (now + resolver_pollInterval) (started @ [now]))
           = now + resolver_pollInterval"
      by (simp add: getByNgModelValue_loop_timeout)
    have "finished (getByNgModelValue_loop w root m v deadline (now + resolver_pollInterval) (started @ [now]))
           \<le> deadline + resolver_pollInterval"
      using IH(3) late none(1) by (cases "now + resolver_pollInterval \<le> deadline") simp_all
    with IH(1,2) show
      "result (getByNgModelValue_loop w root m v deadline now started) = Inr (Locator root no_match_selector)
       \<and> deadline < finished (getByNgModelValue_loop w root m v deadline now started)
       \<and> (now \<le> deadline \<longrightarrow>
            finished (getByNgModelValue_loop w root m v deadline now started) \<le> deadline + resolver_pollInterval)"
      by (simp add: getByNgModelValue_loop_none [OF none(1,2)])
  qed
qed

lemma no_candidate_no_selector:
  assumes "elementHandles (w t (Locator root (ng_model_selector m))) = Inr hs"
      and "\<forall>h \<in> set hs. \<not> candidate_matches (angular (w t (Locator root (ng_model_selector m)))) v h"
  shows "tick_selectors w root m v t = Inr []"
  using assms by (simp add: tick_selectors_def Let_def kept_from_empty_iff)


section \<open>The first tick that keeps a candidate\<close>

text \<open>
  C5. When the ticks before the \<open>n\<close>-th keep no candidate and the \<open>n\<close>-th tick, still within
  the deadline, keeps at least one, the resolver returns at that tick: a locator under the
  given root whose selector is the selectors of the kept candidates joined by a comma and
  a space; the clock at the return is the instant of that tick and no later tick is
  started. The ticks are counted from the first test of the loop, at \<open>first\<close>; the
  deadline is 5000 ms after \<open>start\<close>.
\<close>

theorem getByNgModelValue_first_match:
  assumes "\<forall>k<n. tick_selectors w root m v (first + resolver_pollInterval * int k) = Inr []"
      and "first + resolver_pollInterval * int n \<le> start + resolver_timeout"
      and "elementHandles (w (first + resolver_pollInterval * int n) (Locator root (ng_model_selector m))) = Inr hs"
      and "\<exists>h \<in> set hs. candidate_matches
              (angular (w (first + resolver_pollInterval * int n) (Locator root (ng_model_selector m)))) v h"
  shows "getByNgModelValue w root m v start first =
           \<lparr>result = Inr (Locator root (join '', ''
               (kept_from (angular (w (first + resolver_pollInterval * int n) (Locator root (ng_model_selector m))))
                  v (first + resolver_pollInterval * int n) 0 hs))),
            finished = first + resolver_pollInterval * int n,
            ticks = map (\<lambda>k. first + resolver_pollInterval * int k) [0..<Suc n]\<rparr>"
proof -
  let ?t = "first + resolver_pollInterval * int n"
  let ?snap = "w ?t (Locator root (ng_model_selector m))"
  let ?sels = "kept_from (angular ?snap) v ?t 0 hs"
  have le: "\<forall>k<n. first + resolver_pollInterval * int k \<le> start + resolver_timeout"
  proof (intro allI impI)
    fix k assume "k < n"
    then have "resolver_pollInterval * int k \<le> resolver_pollInterval * int n"
      by (simp add: resolver_pollInterval_def)
    with assms(2) show "first + resolver_pollInterval * int k \<le> start + resolver_timeout"
      by simp
  qed
  have ts: "tick_selectors w root m v ?t = Inr ?sels"
    using assms(3) by (simp add: tick_selectors_def Let_def)
  have ne: "?sels \<noteq> []"
    using assms(4) by (simp add: kept_from_empty_iff)
  show ?thesis
    unfolding getByNgModelValue_def
    by (simp only: getByNgModelValue_loop_skip [OF assms(1) le]
          getByNgModelValue_loop_found [OF assms(2) ts ne]) simp
qed

theorem getByNgModelValue_first_match_witness:
  "getByNgModelValue late_email_world Page ''user.email'' (JStr ''test@example.com'') 0 0 =
     \<lparr>result = Inr (Locator Page ''#email, [data-pw-ng-temp=\"pw-ng-temp-1-200\"]''),
      finished = 200, ticks = [0, 100, 200]\<rparr>"
proof -
  have a: "\<forall>k<2. tick_selectors late_email_world Page ''user.email'' (JStr ''test@example.com'')
                   (0 + resolver_pollInterval * int k) = Inr []"
    by (simp add: tick_selectors_def late_email_world_def elementHandles_def resolver_pollInterval_def)
  have b: "0 + resolver_pollInterval * int 2 \<le> 0 + resolver_timeout"
    by (simp add: resolver_pollInterval_def resolver_timeout_def)
  have c: "elementHandles (late_email_world (0 + resolver_pollInterval * int 2)
              (Locator Page (ng_model_selector ''user.email''))) = Inr [email_input, email_copy]"
    by (simp add: late_email_world_def elementHandles_def resolver_pollInterval_def)
  have d: "\<exists>h \<in> set [email_input, email_copy]. candidate_matches
              (angular (late_email_world (0 + resolver_pollInterval * int 2)
                 (Locator Page (ng_model_selector ''user.email'')))) (JStr ''test@example.com'') h"
    by (simp add: late_email_world_def candidate_matches_def candidate_in_page_def email_input_def
          Equality_def)
  have e: "[0..<3] = [0, 1, 2]" by (simp add: upt_rec)
  from getByNgModelValue_first_match [OF a b c d] show ?thesis
    by (simp add: e late_email_world_def candidate_matches_def candidate_in_page_def email_input_def
          email_copy_def Equality_def uniqueId_in_page_def resolver_pollInterval_def
          show_nat.simps show_int_def digit_char_def)
qed

section \<open>No candidate in any tick\<close>

text \<open>
  C2. When every tick up to the deadline obtains its handles and none of them is kept, the
  resolver does not reject: it returns the locator with the selector
  \<open>[data-pw-ng-no-match="true"]\<close> under the given root, after the deadline and, when the
  first test of the loop is not itself past the deadline, at most one poll interval after
  it; when the two clock reads with which the call begins give the same instant, exactly
  one poll interval after the deadline.
\<close>

theorem getByNgModelValue_no_match_sentinel:
  assumes "\<forall>k. first + resolver_pollInterval * int k \<le> start + resolver_timeout \<longrightarrow> (\<exists>hs.
             elementHandles (w (first + resolver_pollInterval * int k) (Locator root (ng_model_selector m))) = Inr hs
             \<and> (\<forall>h \<in> set hs. \<not> candidate_matches
                   (angular (w (first + resolver_pollInterval * int k) (Locator root (ng_model_selector m)))) v h))"
  shows "result (getByNgModelValue w root m v start first) = Inr (Locator root ''[data-pw-ng-no-match=\"true\"]'')
       \<and> start + resolver_timeout < finished (getByNgModelValue w root m v start first)
       \<and> (first \<le> start + resolver_timeout \<longrightarrow>
            finished (getByNgModelValue w root m v start first) \<le> start + resolver_timeout + resolver_pollInterval)
       \<and> (first = start \<longrightarrow>
            finished (getByNgModelValue w root m v start first) = start + resolver_timeout + resolver_pollInterval)"
proof -
  have none: "\<forall>k. first + resolver_pollInterval * int k \<le> start + resolver_timeout \<longrightarrow>
                tick_selectors w root m v (first + resolver_pollInterval * int k) = Inr []"
  proof (intro allI impI)
    fix k :: nat assume "first + resolver_pollInterval * int k \<le> start + resolver_timeout"
    with assms obtain hs where
      "elementHandles (w (first + resolver_pollInterval * int k) (Locator root (ng_model_selector m))) = Inr hs"
      "\<forall>h \<in> set hs. \<not> candidate_matches
          (angular (w (first + resolver_pollInterval * int k) (Locator root (ng_model_selector m)))) v h"
      by blast
    then show "tick_selectors w root m v (first + resolver_pollInterval * int k) = Inr []"
      by (rule no_candidate_no_selector)
  qed
  from getByNgModelValue_loop_no_match [where started = "[]", THEN mp, OF none]
  have general:
    "result (getByNgModelValue w root m v start first) = Inr (Locator root no_match_selector)"
    "start + resolver_timeout < finished (getByNgModelValue w root m v start first)"
    "first \<le> start + resolver_timeout \<longrightarrow>
       finished (getByNgModelValue w root m v start first) \<le> start + resolver_timeout + resolver_pollInterval"
    unfolding getByNgModelValue_def by simp_all
  have exact: "finished (getByNgModelValue w root m v start first) = start + resolver_timeout + resolver_pollInterval"
    if eq: "first = start"
  proof -
    have le: "\<forall>k<51. first + resolver_pollInterval * int k \<le> start + resolver_timeout"
      using eq by (auto simp: resolver_pollInterval_def resolver_timeout_def)
    with none have n51: "\<forall>k<51. tick_selectors w root m v (first + resolver_pollInterval * int k) = Inr []"
      by simp
    have late: "\<not> first + resolver_pollInterval * int 51 \<le> start + resolver_timeout"
      using eq by (simp add: resolver_pollInterval_def resolver_timeout_def)
    show ?thesis
      unfolding getByNgModelValue_def
      by (simp only: getByNgModelValue_loop_skip [OF n51 le] getByNgModelValue_loop_timeout [OF late])
         (simp add: eq resolver_pollInterval_def resolver_timeout_def)
  qed
  from general exact show ?thesis
    by (simp add: no_match_selector_def)
qed

theorem getByNgModelValue_no_match_sentinel_witness:
  "result (getByNgModelValue empty_world Page ''user.email'' (JStr ''x'') 0 0)
     = Inr (Locator Page ''[data-pw-ng-no-match=\"true\"]'')
   \<and> finished (getByNgModelValue empty_world Page ''user.email'' (JStr ''x'') 0 0) = 5100"
proof -
  have "\<forall>k. 0 + resolver_pollInterval * int k \<le> 0 + resolver_timeout \<longrightarrow> (\<exists>hs.
          elementHandles (empty_world (0 + resolver_pollInterval * int k) (Locator Page (ng_model_selector ''user.email''))) = Inr hs
          \<and> (\<forall>h \<in> set hs. \<not> candidate_matches
                (angular (empty_world (0 + resolver_pollInterval * int k) (Locator Page (ng_model_selector ''user.email''))))
                (JStr ''x'') h))"
    by (simp add: empty_world_def elementHandles_def)
  with getByNgModelValue_no_match_sentinel
         [where w = empty_world and start = 0 and first = 0 and root = Page and m = "''user.email''" and v = "JStr ''x''"]
  show ?thesis
    by (simp add: resolver_pollInterval_def resolver_timeout_def)
qed


section \<open>How the model path is evaluated\<close>

text \<open>
  C3, as the two page functions are written. For an element with a non-empty model-path
  attribute on a page with AngularJS and with a scope: when the scope has an \<open>$eval\<close>
  function the path is evaluated by it (its value is the value read; when it throws, the
  assertion's reader throws \<open>Failed to evaluate\<close> and the resolver's reader gives
  \<open>undefined\<close>), which is also what the reader of the specification gives. When the scope
  has no \<open>$eval\<close> function nothing is traversed: the assertion's reader throws
  \<open>Could not find AngularJS scope for element\<close> and the resolver's reader gives
  \<open>undefined\<close>, whatever the members of the scope are.
\<close>

theorem model_path_evaluation:
  "(ng_model el = Some path \<and> path \<noteq> [] \<and> ang \<and> el_scope el = Some sc \<and> dollar_eval sc = Some ev
      \<and> ev path = Inr v \<longrightarrow>
        ngModelValue_in_page ang el = Inr v \<and> candidate_in_page ang el = v
        \<and> spec_ScopeValueReader ang el = Inr v)
   \<and> (ng_model el = Some path \<and> path \<noteq> [] \<and> ang \<and> el_scope el = Some sc \<and> dollar_eval sc = Some ev
      \<and> ev path = Inl err \<longrightarrow>
        ngModelValue_in_page ang el
          = Inl (Error (''Failed to evaluate ng-model '' @ [CHR 0x22] @ path @ [CHR 0x22]
                        @ '' via $eval: '' @ error_to_string err))
        \<and> candidate_in_page ang el = JUndefined
        \<and> spec_ScopeValueReader ang el = Inl EvaluationThrew)
   \<and> (ng_model el = Some path \<and> path \<noteq> [] \<and> ang \<and> el_scope el = Some sc \<and> dollar_eval sc = None \<longrightarrow>
        ngModelValue_in_page ang el = Inl (Error ''Could not find AngularJS scope for element'')
        \<and> candidate_in_page ang el = JUndefined
        \<and> read_failure ang el = Some ScopeUnavailable)"
  by (simp add: ngModelValue_in_page_def candidate_in_page_def spec_ScopeValueReader_def read_failure_def)

theorem model_path_evaluation_witness:
  "ngModelValue_in_page True name_input = Inr (JStr ''Initial Name'')
   \<and> candidate_in_page True name_input = JStr ''Initial Name''
   \<and> ngModelValue_in_page True throwing_input
       = Inl (Error ''Failed to evaluate ng-model \"user.\" via $eval: Error: [$parse:ueoe]'')
   \<and> candidate_in_page True throwing_input = JUndefined
   \<and> ngModelValue_in_page True plain_scope_input = Inl (Error ''Could not find AngularJS scope for element'')
   \<and> candidate_in_page True plain_scope_input = JUndefined"
proof -
  have a: "ng_model name_input = Some ''user.name'' \<and> ''user.name'' \<noteq> [] \<and> True
           \<and> el_scope name_input = Some \<lparr>dollar_eval = Some (\<lambda>e. Inr (JStr ''Initial Name'')), members = []\<rparr>
           \<and> dollar_eval \<lparr>dollar_eval = Some (\<lambda>e. Inr (JStr ''Initial Name'')), members = []\<rparr>
               = Some (\<lambda>e. Inr (JStr ''Initial Name''))
           \<and> (\<lambda>e. Inr (JStr ''Initial Name'') :: js_error + jsvalue) ''user.name'' = Inr (JStr ''Initial Name'')"
    by (simp add: name_input_def)
  have b: "ng_model throwing_input = Some ''user.'' \<and> ''user.'' \<noteq> [] \<and> True
           \<and> el_scope throwing_input = Some \<lparr>dollar_eval = Some (\<lambda>e. Inl (Error ''[$parse:ueoe]'')), members = []\<rparr>
           \<and> dollar_eval \<lparr>dollar_eval = Some (\<lambda>e. Inl (Error ''[$parse:ueoe]'')), members = []\<rparr>
               = Some (\<lambda>e. Inl (Error ''[$parse:ueoe]''))
           \<and> (\<lambda>e. Inl (Error ''[$parse:ueoe]'') :: js_error + jsvalue) ''user.'' = Inl (Error ''[$parse:ueoe]'')"
    by (simp add: throwing_input_def)
  have c: "ng_model plain_scope_input = Some ''user.name'' \<and> ''user.name'' \<noteq> [] \<and> True
           \<and> el_scope plain_scope_input
               = Some \<lparr>dollar_eval = None, members = [(''user'', JObj [(''name'', JStr ''Ann'')])]\<rparr>
           \<and> dollar_eval \<lparr>dollar_eval = None, members = [(''user'', JObj [(''name'', JStr ''Ann'')])]\<rparr> = None"
    by (simp add: plain_scope_input_def)
  from a model_path_evaluation
         [where el = name_input and path = "''user.name''" and ang = True
            and sc = "\<lparr>dollar_eval = Some (\<lambda>e. Inr (JStr ''Initial Name'')), members = []\<rparr>"
            and ev = "\<lambda>e. Inr (JStr ''Initial Name'')" and v = "JStr ''Initial Name''" and err = "Error ''x''"]
  have 1: "ngModelValue_in_page True name_input = Inr (JStr ''Initial Name'')
           \<and> candidate_in_page True name_input = JStr ''Initial Name''"
    by simp
  from b model_path_evaluation
         [where el = throwing_input and path = "''user.''" and ang = True
            and sc = "\<lparr>dollar_eval = Some (\<lambda>e. Inl (Error ''[$parse:ueoe]'')), members = []\<rparr>"
            and ev = "\<lambda>e. Inl (Error ''[$parse:ueoe]'')" and v = JNull and err = "Error ''[$parse:ueoe]''"]
  have 2: "ngModelValue_in_page True throwing_input
             = Inl (Error ''Failed to evaluate ng-model \"user.\" via $eval: Error: [$parse:ueoe]'')
           \<and> candidate_in_page True throwing_input = JUndefined"
    by (simp add: error_to_string_def)
  from c model_path_evaluation
         [where el = plain_scope_input and path = "''user.name''" and ang = True
            and sc = "\<lparr>dollar_eval = None, members = [(''user'', JObj [(''name'', JStr ''Ann'')])]\<rparr>"
            and ev = "\<lambda>e. Inr JNull" and v = JNull and err = "Error ''x''"]
  have 3: "ngModelValue_in_page True plain_scope_input = Inl (Error ''Could not find AngularJS scope for element'')
           \<and> candidate_in_page True plain_scope_input = JUndefined"
    by simp
  from 1 2 3 show ?thesis by simp
qed

text \<open>
  A scope without \<open>$eval\<close> whose members hold \<open>user.name\<close>: the reader of the
  specification finds the value by following the path, the two page functions fail.
\<close>

theorem no_traversal_fallback:
  "ng_model plain_scope_input = Some ''user.name''
   \<and> el_scope plain_scope_input
       = Some \<lparr>dollar_eval = None, members = [(''user'', JObj [(''name'', JStr ''Ann'')])]\<rparr>
   \<and> spec_ScopeValueReader True plain_scope_input = Inr (JStr ''Ann'')
   \<and> ngModelValue_in_page True plain_scope_input = Inl (Error ''Could not find AngularJS scope for element'')
   \<and> candidate_in_page True plain_scope_input = JUndefined"
  by (simp add: plain_scope_input_def spec_ScopeValueReader_def ngModelValue_in_page_def
        candidate_in_page_def)

section \<open>A candidate that cannot be read\<close>

lemma JSON_stringify_undefined_iff: "JSON_stringify v = Inr None \<longleftrightarrow> v = JUndefined"
  by (cases v) (simp_all split: sum.splits)

lemma Equality_undefined:
  "Equality JUndefined val = Inr True \<longleftrightarrow> val = JUndefined"
  using JSON_stringify_undefined_iff [of val]
  by (auto simp: Equality_def split: sum.splits)

lemma read_failure_undefined:
  "read_failure ang h \<noteq> None \<Longrightarrow> candidate_in_page ang h = JUndefined"
  by (auto simp: read_failure_def candidate_in_page_def split: option.splits if_splits sum.splits)

lemma failing_candidate_not_kept:
  "read_failure ang h \<noteq> None \<or> evaluate_error h \<noteq> None \<Longrightarrow> val \<noteq> JUndefined \<Longrightarrow>
   \<not> candidate_matches ang val h"
  by (auto simp: candidate_matches_def Equality_undefined read_failure_undefined)

lemma failing_candidate_kept_for_undefined:
  "read_failure ang h \<noteq> None \<Longrightarrow> evaluate_error h = None \<Longrightarrow> candidate_matches ang JUndefined h"
  by (simp add: candidate_matches_def Equality_undefined read_failure_undefined)

text \<open>
  C4, as the resolver is written. A candidate whose read fails inside the page (no
  attribute, no AngularJS, no scope, an evaluation that throws) is read as \<open>undefined\<close>,
  and one whose handle cannot be evaluated is dropped by the \<open>catch\<close>. When the wanted
  value is not \<open>undefined\<close> neither is kept, and in every case the scan goes on: the
  selectors of the tick are those of the candidates before it followed by those of the
  candidates after it, each at its own position. When the wanted value is \<open>undefined\<close>, a
  candidate whose read fails inside the page, on a handle that can be evaluated, is kept.
  The resolver as a whole rejects only when a query for the handles rejects.
\<close>

theorem failing_candidate_is_skipped:
  "((read_failure ang h \<noteq> None \<or> evaluate_error h \<noteq> None) \<and> val \<noteq> JUndefined \<longrightarrow>
      \<not> candidate_matches ang val h
      \<and> scan_handles ang val now (pre @ h # post) 0 []
          = kept_from ang val now 0 pre @ kept_from ang val now (Suc (length pre)) post)
   \<and> (evaluate_error h \<noteq> None \<longrightarrow>
        scan_handles ang val now (pre @ h # post) 0 []
          = kept_from ang val now 0 pre @ kept_from ang val now (Suc (length pre)) post)
   \<and> (read_failure ang h \<noteq> None \<and> evaluate_error h = None \<longrightarrow> candidate_matches ang JUndefined h)
   \<and> (result (getByNgModelValue w root m val start first) = Inl e \<longrightarrow>
        (\<exists>t \<in> set (ticks (getByNgModelValue w root m val start first)).
            elementHandles (w t (Locator root (ng_model_selector m))) = Inl e))"
proof (intro conjI impI)
  assume a: "(read_failure ang h \<noteq> None \<or> evaluate_error h \<noteq> None) \<and> val \<noteq> JUndefined"
  then show n: "\<not> candidate_matches ang val h"
    by (simp add: failing_candidate_not_kept)
  then show "scan_handles ang val now (pre @ h # post) 0 []
          = kept_from ang val now 0 pre @ kept_from ang val now (Suc (length pre)) post"
    by (simp add: scan_handles_all kept_from_append)
next
  assume "evaluate_error h \<noteq> None"
  then have "\<not> candidate_matches ang val h"
    by (simp add: candidate_matches_def)
  then show "scan_handles ang val now (pre @ h # post) 0 []
          = kept_from ang val now 0 pre @ kept_from ang val now (Suc (length pre)) post"
    by (simp add: scan_handles_all kept_from_append)
next
  assume "read_failure ang h \<noteq> None \<and> evaluate_error h = None"
  then show "candidate_matches ang JUndefined h"
    by (simp add: failing_candidate_kept_for_undefined)
next
  assume "result (getByNgModelValue w root m val start first) = Inl e"
  then show "\<exists>t \<in> set (ticks (getByNgModelValue w root m val start first)).
            elementHandles (w t (Locator root (ng_model_selector m))) = Inl e"
    unfolding getByNgModelValue_def by (rule getByNgModelValue_loop_rejection)
qed

theorem failing_candidate_is_skipped_witness:
  "read_failure True orphan_input = Some ScopeUnavailable
   \<and> scan_handles True (JStr ''bob'') 0 [orphan_input, nick_input] 0 [] = [''#nick'']"
proof -
  have a: "read_failure True orphan_input = Some ScopeUnavailable"
    by (simp add: read_failure_def orphan_input_def)
  have b: "JStr ''bob'' \<noteq> JUndefined" by simp
  from a b failing_candidate_is_skipped
         [where ang = True and h = orphan_input and val = "JStr ''bob''" and now = 0
            and pre = "[]" and post = "[nick_input]" and w = orphan_world and root = Page
            and m = "''user.nick''" and start = 0 and first = 0 and e = "Error ''x''"]
  show ?thesis
    by (simp add: candidate_matches_def candidate_in_page_def nick_input_def Equality_def
          uniqueId_in_page_def)
qed

text \<open>
  With \<open>undefined\<close> as the wanted value, an element without a scope is kept as a match.
\<close>

theorem failing_candidate_matches_undefined:
  "read_failure True orphan_input = Some ScopeUnavailable
   \<and> getByNgModelValue orphan_world Page ''user.nick'' JUndefined 0 0
       = \<lparr>result = Inr (Locator Page ''[data-pw-ng-temp=\"pw-ng-temp-0-0\"]''),
          finished = 0, ticks = [0]\<rparr>"
proof -
  have a: "read_failure True orphan_input = Some ScopeUnavailable"
    by (simp add: read_failure_def orphan_input_def)
  have t: "tick_selectors orphan_world Page ''user.nick'' JUndefined 0
             = Inr [''[data-pw-ng-temp=\"pw-ng-temp-0-0\"]'']"
    by (simp add: tick_selectors_def orphan_world_def elementHandles_def candidate_matches_def
          candidate_in_page_def orphan_input_def nick_input_def Equality_def uniqueId_in_page_def
          show_nat.simps show_int_def digit_char_def json_quote_def json_escape_def)
  have "getByNgModelValue orphan_world Page ''user.nick'' JUndefined 0 0
       = \<lparr>result = Inr (Locator Page ''[data-pw-ng-temp=\"pw-ng-temp-0-0\"]''),
          finished = 0, ticks = [0]\<rparr>"
    unfolding getByNgModelValue_def
    by (subst getByNgModelValue_loop_found [OF _ t]) (simp_all add: resolver_timeout_def)
  with a show ?thesis by simp
qed


section \<open>The ticks of the assertion\<close>

lemma matcher_tick_strict:
  "locator_count snap = Inr c \<Longrightarrow> 1 < c \<Longrightarrow>
   matcher_tick snap ev st = Returned (strict_outcome ev c)"
  by (simp add: matcher_tick_def matcher_try_def)

lemma tick_returns_any_state:
  "tick_returns snap ev \<longleftrightarrow> (\<exists>out. matcher_tick snap ev st = Returned out)"
  by (auto simp: tick_returns_def matcher_tick_def matcher_try_def split: sum.splits if_splits)

lemma default_deadline: "deadline_of start (matcher_timeout None) = Until (start + 5000)"
  by (simp add: matcher_timeout_def number_floor_def show_nat.simps digit_char_def)

text \<open>A tick within the deadline that returns makes the loop complete.\<close>

lemma toHaveNgValue_loop_reaches:
  "within (now + matcher_pollInterval * int k) dl \<Longrightarrow>
   tick_returns (w (now + matcher_pollInterval * int k) loc) ev \<Longrightarrow>
   \<exists>r. toHaveNgValue_loop w loc ev dl now st started = Some r"
proof (induction k arbitrary: now st started)
  case 0
  then obtain out where "matcher_tick (w now loc) ev st = Returned out"
    using tick_returns_any_state [of "w now loc" ev st] by auto
  with 0 show ?case by (simp add: toHaveNgValue_loop_returned)
next
  case (Suc k)
  have "now \<le> now + matcher_pollInterval * int (Suc k)"
    by (simp add: matcher_pollInterval_def)
  with Suc.prems(1) have wi: "within now dl" by (rule within_earlier)
  show ?case
  proof (cases "matcher_tick (w now loc) ev st")
    case (Returned out)
    with wi show ?thesis by (simp add: toHaveNgValue_loop_returned)
  next
    case (Retry st')
    have eq: "now + matcher_pollInterval + matcher_pollInterval * int k
            = now + matcher_pollInterval * int (Suc k)"
      by (simp add: algebra_simps)
    from Suc.prems have
      "within (now + matcher_pollInterval + matcher_pollInterval * int k) dl"
      "tick_returns (w (now + matcher_pollInterval + matcher_pollInterval * int k) loc) ev"
      by (simp_all only: eq)
    from Suc.IH [OF this] wi Retry show ?thesis
      by (simp add: toHaveNgValue_loop_retry)
  qed
qed



lemma toHaveNgValue_loop_bounded_completes:
  "dl \<noteq> Unbounded \<Longrightarrow> \<exists>r. toHaveNgValue_loop w loc ev dl now st started = Some r"
  by (cases dl) (simp_all add: toHaveNgValue_loop_completes toHaveNgValue_loop_timeout)


section \<open>The assertion and a locator that matches several elements\<close>

lemma toHaveNgValue_loop_strict:
  assumes "toHaveNgValue_loop w loc ev dl now st started = Some r"
  shows "t \<in> set (ticks r) \<and> t \<notin> set started \<and> locator_count (w t loc) = Inr c \<and> 1 < c \<longrightarrow>
         result r = Inr (strict_outcome ev c) \<and> finished r = t \<and> last (ticks r) = t"
  using assms
proof (induction rule: matcher_run_induct)
  case (timeout now st started)
  then show ?case by auto
next
  case (returned now st started out)
  then show ?case by (auto simp: matcher_tick_strict)
next
  case (retry now st started st' r)
  show ?case
  proof (cases "t = now")
    case True
    with retry(2) show ?thesis by (auto simp: matcher_tick_strict)
  next
    case False
    with retry(4) show ?thesis by auto
  qed
qed

text \<open>
  C1. Whenever a tick that the assertion starts finds that the locator matches more than
  one element, the assertion returns at that very tick: the outcome is the failed
  strict-mode outcome with the count in its message, the clock at the return is the
  instant of the tick (no sleep follows), and no later tick is started. And the assertion
  does complete when, at a poll instant within the deadline, the locator matches more
  than one element.
\<close>

theorem toHaveNgValue_strict_mode_immediate:
  "(toHaveNgValue w loc ev opts start first = Some r \<and> t \<in> set (ticks r)
      \<and> locator_count (w t loc) = Inr c \<and> 1 < c \<longrightarrow>
        result r = Inr (strict_outcome ev c)
        \<and> pass (strict_outcome ev c) = False
        \<and> message (strict_outcome ev c)
            = Inr (''Error: strict mode violation: locator resolved to '' @ show_nat c
                   @ '' elements, but expected 1'')
        \<and> finished r = t
        \<and> last (ticks r) = t)
   \<and> (within (first + matcher_pollInterval * int k) (deadline_of start (matcher_timeout opts))
      \<and> locator_count (w (first + matcher_pollInterval * int k) loc) = Inr c \<and> 1 < c \<longrightarrow>
        (\<exists>r. toHaveNgValue w loc ev opts start first = Some r))"
proof (intro conjI impI)
  assume a: "toHaveNgValue w loc ev opts start first = Some r \<and> t \<in> set (ticks r)
      \<and> locator_count (w t loc) = Inr c \<and> 1 < c"
  then have "toHaveNgValue_loop w loc ev (deadline_of start (matcher_timeout opts)) first
               \<lparr>lastActual = JUndefined, lastErrorMessage = None\<rparr> [] = Some r"
    by (simp add: toHaveNgValue_def)
  from toHaveNgValue_loop_strict [OF this, of t c] a
  show "result r = Inr (strict_outcome ev c)" "finished r = t" "last (ticks r) = t"
    by simp_all
  show "pass (strict_outcome ev c) = False"
    by (simp add: strict_outcome_def)
  show "message (strict_outcome ev c)
            = Inr (''Error: strict mode violation: locator resolved to '' @ show_nat c
                   @ '' elements, but expected 1'')"
    by (simp add: strict_outcome_def)
next
  assume a: "within (first + matcher_pollInterval * int k) (deadline_of start (matcher_timeout opts))
      \<and> locator_count (w (first + matcher_pollInterval * int k) loc) = Inr c \<and> 1 < c"
  then have "tick_returns (w (first + matcher_pollInterval * int k) loc) ev"
    using tick_returns_any_state [of "w (first + matcher_pollInterval * int k) loc" ev]
    by (simp add: matcher_tick_strict)
  with a toHaveNgValue_loop_reaches
           [where now = first and k = k and dl = "deadline_of start (matcher_timeout opts)"
              and w = w and loc = loc and ev = ev]
  show "\<exists>r. toHaveNgValue w loc ev opts start first = Some r"
    unfolding toHaveNgValue_def by simp
qed

theorem toHaveNgValue_strict_mode_immediate_witness:
  "\<exists>r. toHaveNgValue two_inputs_world (getByNgModel Page ''user.name'') (JStr ''Initial Name'') None 0 0
           = Some r
       \<and> result r = Inr (strict_outcome (JStr ''Initial Name'') 2)
       \<and> finished r = 0 \<and> last (ticks r) = 0"
proof -
  let ?loc = "getByNgModel Page ''user.name''"
  have b: "locator_count (two_inputs_world 0 ?loc) = Inr 2"
    by (simp add: locator_count_def two_inputs_world_def)
  have wi: "within (0 + matcher_pollInterval * int 0) (deadline_of 0 (matcher_timeout None))"
    by (simp add: default_deadline)
  from toHaveNgValue_strict_mode_immediate
         [where w = two_inputs_world and loc = ?loc and ev = "JStr ''Initial Name''"
            and opts = None and start = 0 and first = 0 and c = 2 and k = 0]
       wi b
  obtain r where r: "toHaveNgValue two_inputs_world ?loc (JStr ''Initial Name'') None 0 0 = Some r"
    by auto
  then have "\<exists>rest. ticks r = [] @ 0 # rest"
    unfolding toHaveNgValue_def
    by (intro toHaveNgValue_loop_first_tick [where dl = "deadline_of 0 (matcher_timeout None)"])
       (simp_all add: default_deadline)
  then have t: "0 \<in> set (ticks r)" by auto
  from toHaveNgValue_strict_mode_immediate
         [where w = two_inputs_world and loc = ?loc and ev = "JStr ''Initial Name''"
            and opts = None and start = 0 and first = 0 and c = 2 and k = 0 and r = r and t = 0]
       r t b
  show ?thesis by simp
qed

section \<open>The outcome when the deadline expires\<close>










section \<open>Errors inside a tick and errors after the loop\<close>






section \<open>The deadline of the poll loops\<close>

text \<open>
  C7, as the loops are written. No tick of either loop starts after the deadline, and
  with a timeout other than \<open>Infinity\<close> the assertion completes (the resolver always
  does). When none of the resolver's ticks keeps a candidate, the resolver returns the
  never-matching locator after the deadline and, when its first loop test is not itself
  past the deadline, at most one poll interval after it. Both loops test the clock before
  every tick, the first included: a loop whose first test finds the clock within the
  deadline makes its first attempt at that instant; a loop whose first test finds the
  deadline already passed makes no attempt and returns at once, the resolver the
  never-matching locator and the assertion its failed outcome.
\<close>

theorem poll_loops_respect_deadline:
  "(\<forall>t \<in> set (ticks (getByNgModelValue w root m v start first)). t \<le> start + resolver_timeout)
   \<and> (toHaveNgValue w loc ev opts start first = Some r \<longrightarrow>
        (\<forall>t \<in> set (ticks r). within t (deadline_of start (matcher_timeout opts))))
   \<and> (deadline_of start (matcher_timeout opts) \<noteq> Unbounded \<longrightarrow>
        (\<exists>r. toHaveNgValue w loc ev opts start first = Some r))
   \<and> ((\<forall>k. first + resolver_pollInterval * int k \<le> start + resolver_timeout \<longrightarrow>
            tick_selectors w root m v (first + resolver_pollInterval * int k) = Inr []) \<longrightarrow>
         start + resolver_timeout < finished (getByNgModelValue w root m v start first)
         \<and> (first \<le> start + resolver_timeout \<longrightarrow>
              finished (getByNgModelValue w root m v start first)
                \<le> start + resolver_timeout + resolver_pollInterval)
         \<and> result (getByNgModelValue w root m v start first) = Inr (Locator root no_match_selector))
   \<and> (first \<le> start + resolver_timeout \<longrightarrow>
        (\<exists>rest. ticks (getByNgModelValue w root m v start first) = first # rest))
   \<and> (start + resolver_timeout < first \<longrightarrow>
        getByNgModelValue w root m v start first
          = \<lparr>result = Inr (Locator root no_match_selector), finished = first, ticks = []\<rparr>)
   \<and> (toHaveNgValue w loc ev opts start first = Some r
      \<and> within first (deadline_of start (matcher_timeout opts)) \<longrightarrow>
        (\<exists>rest. ticks r = first # rest))
   \<and> (\<not> within first (deadline_of start (matcher_timeout opts)) \<longrightarrow>
        toHaveNgValue w loc ev opts start first
          = Some \<lparr>result = timeout_outcome ev \<lparr>lastActual = JUndefined, lastErrorMessage = None\<rparr>,
                  finished = first, ticks = []\<rparr>)"
proof (intro conjI impI ballI)
  fix t assume "t \<in> set (ticks (getByNgModelValue w root m v start first))"
  then show "t \<le> start + resolver_timeout"
    using getByNgModelValue_loop_ticks_bound [of t w root m v "start + resolver_timeout" first "[]"]
    by (simp add: getByNgModelValue_def)
next
  fix t assume "toHaveNgValue w loc ev opts start first = Some r" and "t \<in> set (ticks r)"
  then show "within t (deadline_of start (matcher_timeout opts))"
    using toHaveNgValue_loop_ticks_bound
            [of w loc ev "deadline_of start (matcher_timeout opts)" first _ "[]" r t]
    by (simp add: toHaveNgValue_def)
next
  assume "deadline_of start (matcher_timeout opts) \<noteq> Unbounded"
  then show "\<exists>r. toHaveNgValue w loc ev opts start first = Some r"
    unfolding toHaveNgValue_def by (rule toHaveNgValue_loop_bounded_completes)
next
  assume a: "\<forall>k. first + resolver_pollInterval * int k \<le> start + resolver_timeout \<longrightarrow>
            tick_selectors w root m v (first + resolver_pollInterval * int k) = Inr []"
  from getByNgModelValue_loop_no_match [where started = "[]", THEN mp, OF a]
  show "start + resolver_timeout < finished (getByNgModelValue w root m v start first)"
    and "first \<le> start + resolver_timeout \<Longrightarrow>
           finished (getByNgModelValue w root m v start first)
             \<le> start + resolver_timeout + resolver_pollInterval"
    and "result (getByNgModelValue w root m v start first) = Inr (Locator root no_match_selector)"
    unfolding getByNgModelValue_def by simp_all
next
  assume "first \<le> start + resolver_timeout"
  from getByNgModelValue_loop_first_tick [OF this, of w root m v "[]"]
  show "\<exists>rest. ticks (getByNgModelValue w root m v start first) = first # rest"
    by (simp add: getByNgModelValue_def)
next
  assume "start + resolver_timeout < first"
  then show "getByNgModelValue w root m v start first
          = \<lparr>result = Inr (Locator root no_match_selector), finished = first, ticks = []\<rparr>"
    by (simp add: getByNgModelValue_def getByNgModelValue_loop_timeout)
next
  assume a: "toHaveNgValue w loc ev opts start first = Some r
      \<and> within first (deadline_of start (matcher_timeout opts))"
  then have "toHaveNgValue_loop w loc ev (deadline_of start (matcher_timeout opts)) first
               \<lparr>lastActual = JUndefined, lastErrorMessage = None\<rparr> [] = Some r"
    by (simp add: toHaveNgValue_def)
  with a toHaveNgValue_loop_first_tick
           [where now = first and dl = "deadline_of start (matcher_timeout opts)" and w = w
              and loc = loc and ev = ev and started = "[]" and r = r]
  show "\<exists>rest. ticks r = first # rest"
    by simp
next
  assume "\<not> within first (deadline_of start (matcher_timeout opts))"
  then show "toHaveNgValue w loc ev opts start first
          = Some \<lparr>result = timeout_outcome ev \<lparr>lastActual = JUndefined, lastErrorMessage = None\<rparr>,
                  finished = first, ticks = []\<rparr>"
    by (simp add: toHaveNgValue_def toHaveNgValue_loop_timeout)
qed

text \<open>
  An element that holds exactly the wanted value, and no attempt to read it: with a
  timeout of \<open>0\<close> when the clock advances by a millisecond between the read that computes
  the deadline and the first test of the loop, with a timeout of \<open>-1\<close>, and, for the
  resolver, when the clock is past the deadline at the first test of the loop.
\<close>

theorem elapsed_deadline_no_attempt:
  "toHaveNgValue single_input_world (getByNgModel Page ''user.name'') (JStr ''Initial Name'')
       (Some \<lparr>timeout = Some PosZero\<rparr>) 0 1
     = Some \<lparr>result = Inr \<lparr>pass = False,
                 message = Inr (''Expected ng-model to have value: \"Initial Name\"'' @ [CHR 0x0A]
                                @ ''Received: No value (last error: unknown)''),
                 name = ''toHaveNgValue'', expected = JStr ''Initial Name'', actual = JUndefined\<rparr>,
             finished = 1, ticks = []\<rparr>
   \<and> toHaveNgValue single_input_world (getByNgModel Page ''user.name'') (JStr ''Initial Name'')
       (Some \<lparr>timeout = Some (Finite True 1 1)\<rparr>) 0 0
     = Some \<lparr>result = Inr \<lparr>pass = False,
                 message = Inr (''Expected ng-model to have value: \"Initial Name\"'' @ [CHR 0x0A]
                                @ ''Received: No value (last error: unknown)''),
                 name = ''toHaveNgValue'', expected = JStr ''Initial Name'', actual = JUndefined\<rparr>,
             finished = 0, ticks = []\<rparr>
   \<and> getByNgModelValue single_input_world Page ''user.name'' (JStr ''Initial Name'') 0 5001
     = \<lparr>result = Inr (Locator Page ''[data-pw-ng-no-match=\"true\"]''), finished = 5001, ticks = []\<rparr>"
  by (simp add: toHaveNgValue_def matcher_timeout_def number_floor_def show_nat.simps digit_char_def
        toHaveNgValue_loop_timeout timeout_outcome_def receivedStr_def message_text_def
        template_str_def json_quote_def json_escape_def
        getByNgModelValue_def resolver_timeout_def getByNgModelValue_loop_timeout no_match_selector_def)

theorem poll_loops_respect_deadline_witness:
  "5000 < finished (getByNgModelValue empty_world Page ''user.email'' (JStr ''x'') 0 0)
   \<and> finished (getByNgModelValue empty_world Page ''user.email'' (JStr ''x'') 0 0) \<le> 5100
   \<and> hd (ticks (getByNgModelValue empty_world Page ''user.email'' (JStr ''x'') 0 0)) = 0
   \<and> toHaveNgValue empty_world Page (JStr ''x'') (Some \<lparr>timeout = Some PosZero\<rparr>) 0 1
       = Some \<lparr>result = timeout_outcome (JStr ''x'') \<lparr>lastActual = JUndefined, lastErrorMessage = None\<rparr>,
               finished = 1, ticks = []\<rparr>
   \<and> (\<exists>r. toHaveNgValue empty_world Page (JStr ''x'') (Some \<lparr>timeout = Some PosZero\<rparr>) 0 0 = Some r)"
proof -
  let ?opts = "Some \<lparr>timeout = Some PosZero\<rparr>"
  let ?r0 = "\<lparr>result = timeout_outcome (JStr ''x'') \<lparr>lastActual = JUndefined, lastErrorMessage = None\<rparr>,
              finished = 1, ticks = []\<rparr>"
  have dl: "deadline_of 0 (matcher_timeout ?opts) = Until 0"
    by (simp add: matcher_timeout_def)
  have a: "\<forall>k. 0 + resolver_pollInterval * int k \<le> 0 + resolver_timeout \<longrightarrow>
              tick_selectors empty_world Page ''user.email'' (JStr ''x'')
                (0 + resolver_pollInterval * int k) = Inr []"
    by (simp add: tick_selectors_def empty_world_def elementHandles_def)
  have b: "(0::int) \<le> 0 + resolver_timeout"
    by (simp add: resolver_timeout_def)
  from a b poll_loops_respect_deadline
         [where w = empty_world and root = Page and m = "''user.email''" and v = "JStr ''x''"
            and start = 0 and first = 0 and loc = Page and ev = "JStr ''x''" and opts = ?opts
            and r = ?r0]
  have 1: "5000 < finished (getByNgModelValue empty_world Page ''user.email'' (JStr ''x'') 0 0)
         \<and> finished (getByNgModelValue empty_world Page ''user.email'' (JStr ''x'') 0 0) \<le> 5100
         \<and> hd (ticks (getByNgModelValue empty_world Page ''user.email'' (JStr ''x'') 0 0)) = 0
         \<and> (\<exists>r. toHaveNgValue empty_world Page (JStr ''x'') ?opts 0 0 = Some r)"
    by (auto simp: resolver_timeout_def resolver_pollInterval_def dl)
  have c: "\<not> within 1 (deadline_of 0 (matcher_timeout ?opts))"
    by (simp add: dl)
  from c poll_loops_respect_deadline
         [where w = empty_world and root = Page and m = "''user.email''" and v = "JStr ''x''"
            and start = 0 and first = 1 and loc = Page and ev = "JStr ''x''" and opts = ?opts
            and r = ?r0]
  have 2: "toHaveNgValue empty_world Page (JStr ''x'') ?opts 0 1
       = Some \<lparr>result = timeout_outcome (JStr ''x'') \<lparr>lastActual = JUndefined, lastErrorMessage = None\<rparr>,
               finished = 1, ticks = []\<rparr>"
    by simp
  from 1 2 show ?thesis by simp
qed

section \<open>Equality and the order of the keys\<close>

text \<open>
  C6. The same two key-value pairs created in the other order: the mappings are the
  same, the serialisations differ, and the comparison gives \<open>false\<close>; so the resolver
  does not keep an element whose model holds the wanted object with its keys created in
  another order, and a tick of the assertion on it does not pass. (Keys that are array
  indices are enumerated in ascending order, whatever the order of their creation, so
  for them the order of creation makes no difference.)
\<close>

theorem Equality_depends_on_key_order:
  "map_of [(''a'', JNum (Finite False 1 1)), (''b'', JNum (Finite False 2 1))]
     = map_of [(''b'', JNum (Finite False 2 1)), (''a'', JNum (Finite False 1 1))]
   \<and> JSON_stringify (JObj [(''a'', JNum (Finite False 1 1)), (''b'', JNum (Finite False 2 1))])
       = Inr (Some ''{\"a\":1,\"b\":2}'')
   \<and> JSON_stringify (JObj [(''b'', JNum (Finite False 2 1)), (''a'', JNum (Finite False 1 1))])
       = Inr (Some ''{\"b\":2,\"a\":1}'')
   \<and> Equality (JObj [(''b'', JNum (Finite False 2 1)), (''a'', JNum (Finite False 1 1))])
               (JObj [(''a'', JNum (Finite False 1 1)), (''b'', JNum (Finite False 2 1))]) = Inr False
   \<and> candidate_matches True
        (JObj [(''a'', JNum (Finite False 1 1)), (''b'', JNum (Finite False 2 1))]) profile_input = False
   \<and> matcher_tick (profile_world 0 Page)
        (JObj [(''a'', JNum (Finite False 1 1)), (''b'', JNum (Finite False 2 1))])
        \<lparr>lastActual = JUndefined, lastErrorMessage = None\<rparr>
       = Retry \<lparr>lastActual = JObj [(''b'', JNum (Finite False 2 1)), (''a'', JNum (Finite False 1 1))],
                lastErrorMessage = None\<rparr>
   \<and> Equality (JObj [(''b'', JNum (Finite False 1 1)), (''1'', JNum (Finite False 2 1))])
               (JObj [(''1'', JNum (Finite False 2 1)), (''b'', JNum (Finite False 1 1))]) = Inr True"
proof -
  let ?ab = "JObj [(''a'', JNum (Finite False 1 1)), (''b'', JNum (Finite False 2 1))]"
  let ?ba = "JObj [(''b'', JNum (Finite False 2 1)), (''a'', JNum (Finite False 1 1))]"
  have m: "map_of [(''a'', JNum (Finite False 1 1)), (''b'', JNum (Finite False 2 1))]
         = map_of [(''b'', JNum (Finite False 2 1)), (''a'', JNum (Finite False 1 1))]"
    by (simp add: fun_eq_iff)
  have 1: "JSON_stringify ?ab = Inr (Some ''{\"a\":1,\"b\":2}'')"
    by (simp add: json_quote_def json_escape_def finite_text_def show_nat.simps digit_char_def
          own_property_order_def array_index_def digit_value_def keyed_def)
  have 2: "JSON_stringify ?ba = Inr (Some ''{\"b\":2,\"a\":1}'')"
    by (simp add: json_quote_def json_escape_def finite_text_def show_nat.simps digit_char_def
          own_property_order_def array_index_def digit_value_def keyed_def)
  have 3: "Equality ?ba ?ab = Inr False"
    by (simp only: Equality_def 1 2) simp
  have 4: "candidate_matches True ?ab profile_input = False"
    using 3 by (simp add: candidate_matches_def candidate_in_page_def profile_input_def)
  have 5: "matcher_tick (profile_world 0 Page) ?ab \<lparr>lastActual = JUndefined, lastErrorMessage = None\<rparr>
             = Retry \<lparr>lastActual = ?ba, lastErrorMessage = None\<rparr>"
    using 3
    by (simp add: matcher_tick_def matcher_try_def profile_world_def locator_count_def
          getNgModelValue_def first_evaluate_def handle_evaluate_def ngModelValue_in_page_def
          profile_input_def)
  have 6: "Equality (JObj [(''b'', JNum (Finite False 1 1)), (''1'', JNum (Finite False 2 1))])
               (JObj [(''1'', JNum (Finite False 2 1)), (''b'', JNum (Finite False 1 1))]) = Inr True"
    by (simp add: Equality_def json_quote_def json_escape_def finite_text_def show_nat.simps
          digit_char_def own_property_order_def array_index_def digit_value_def keyed_def)
  from m 1 2 3 4 5 6 show ?thesis by simp
qed

section \<open>Installing twice\<close>

text \<open>
  C9. A second installation, on the same page or on another one, leaves the shared
  locator prototype as the first one left it; more generally an installation does not
  touch a prototype that already has a \<open>getByNgModel\<close>.
\<close>

theorem installAngularjsExtensions_prototype_idempotent:
  "locatorPrototype (installAngularjsExtensions p2 (installAngularjsExtensions p1 rt))
     = locatorPrototype (installAngularjsExtensions p1 rt)
   \<and> (locatorPrototype rt ''getByNgModel'' \<noteq> None \<longrightarrow>
        locatorPrototype (installAngularjsExtensions p rt) = locatorPrototype rt)"
  by (auto simp: installAngularjsExtensions_def Let_def split: option.splits)

theorem installAngularjsExtensions_prototype_idempotent_witness:
  "locatorPrototype (installAngularjsExtensions 1 fresh_runtime) ''getByNgModel'' \<noteq> None
   \<and> locatorPrototype (installAngularjsExtensions 2 (installAngularjsExtensions 1 fresh_runtime))
       = locatorPrototype (installAngularjsExtensions 1 fresh_runtime)
   \<and> locatorPrototype (installAngularjsExtensions 2 (installAngularjsExtensions 1 fresh_runtime)) ''getByNgModel''
       = Some \<lparr>serial = 2, body = LocatorGetByNgModel\<rparr>"
proof -
  have a: "locatorPrototype (installAngularjsExtensions 1 fresh_runtime) ''getByNgModel''
          = Some \<lparr>serial = 2, body = LocatorGetByNgModel\<rparr>"
    by (simp add: installAngularjsExtensions_def fresh_runtime_def Let_def)
  with installAngularjsExtensions_prototype_idempotent
         [of 2 2 "installAngularjsExtensions 1 fresh_runtime" 2]
  show ?thesis by simp
qed

end
